theory Spec2Isabelle
  imports Main "HOL-Library.Multiset"
begin

section \<open>Errors and arrays\<close>

text \<open>
  The exceptions the module can raise, as values. \<open>KeyError\<close> is what a dictionary
  lookup raises on a missing key, \<open>ValueError\<close> is what \<open>list.index\<close>, \<open>np.zeros\<close> with a
  negative dimension and the \<open>pd.DataFrame\<close> shape check raise, \<open>OverflowError\<close> is what
  \<open>np.array(..., dtype=np.uint32)\<close> raises on an integer outside the range of \<open>uint32\<close>, and
  \<open>DecoderError\<close> stands for every error raised inside the external decoder.
\<close>

datatype error = KeyError | ValueError | OverflowError | DecoderError

text \<open>
  A two-dimensional numpy array keeps its shape next to its rows, so that an array with
  no rows still has a column count.
\<close>

record 'a ndarray =
  shape0 :: nat
  shape1 :: nat
  cells :: "'a list list"

text \<open>
  \<open>np.array(xs, dtype=np.uint32)\<close> on a list of Python ints: every element must lie in the
  range of \<open>uint32\<close>, otherwise numpy raises OverflowError (numpy 2; older releases wrapped
  the value around with a warning). The elements of the array are naturals below \<open>2 ^ 32\<close>.
\<close>

definition uint32_array :: "int list \<Rightarrow> error + nat list" where
  "uint32_array xs =
     (if list_all (\<lambda>i. 0 \<le> i \<and> i < 2 ^ 32) xs then Inr (map nat xs) else Inl OverflowError)"

text \<open>
  The first statement of every reader: a sample subset that is not \<open>None\<close> is converted to
  a \<open>uint32\<close> array.
\<close>

definition subset_array :: "int list option \<Rightarrow> error + nat list option" where
  "subset_array sample_subset =
     (case sample_subset of
        None \<Rightarrow> Inr None
      | Some xs \<Rightarrow> (case uint32_array xs of Inl e \<Rightarrow> Inl e | Inr a \<Rightarrow> Inr (Some a)))"

text \<open>\<open>np.zeros([n, m])\<close>: the row count is a Python int and may be negative.\<close>

definition np_zeros :: "int \<Rightarrow> nat \<Rightarrow> error + ('a::zero) ndarray" where
  "np_zeros n m =
     (if n < 0 then Inl ValueError
      else Inr \<lparr>shape0 = nat n, shape1 = m, cells = replicate (nat n) (replicate m 0)\<rparr>)"

text \<open>The slice \<open>xs[::2]\<close>; \<open>xs[1::2]\<close> is the same slice of \<open>drop 1 xs\<close>.\<close>

fun step2 :: "'a list \<Rightarrow> 'a list" where
  "step2 [] = []"
| "step2 [x] = [x]"
| "step2 (x # y # zs) = x # step2 zs"

text \<open>\<open>a[:, ::2]\<close> and \<open>a[:, 1::2]\<close> on a two-dimensional array.\<close>

definition cols_even :: "'a ndarray \<Rightarrow> 'a ndarray" where
  "cols_even a = \<lparr>shape0 = shape0 a, shape1 = (shape1 a + 1) div 2, cells = map step2 (cells a)\<rparr>"

definition cols_odd :: "'a ndarray \<Rightarrow> 'a ndarray" where
  "cols_odd a = \<lparr>shape0 = shape0 a, shape1 = shape1 a div 2, cells = map (\<lambda>r. step2 (drop 1 r)) (cells a)\<rparr>"

text \<open>
  \<open>pd.DataFrame(data, index=..., columns=...)\<close> on a two-dimensional array: the labels
  must fit the shape of the data, otherwise pandas raises ValueError.
\<close>

record 'a DataFrame =
  df_values :: "'a list list"
  df_index :: "string list"
  df_columns :: "string list"

definition DataFrame_new :: "'a ndarray \<Rightarrow> string list \<Rightarrow> string list \<Rightarrow> error + 'a DataFrame" where
  "DataFrame_new a idx cols =
     (if shape0 a = length idx \<and> shape1 a = length cols
      then Inr \<lparr>df_values = cells a, df_index = idx, df_columns = cols\<rparr>
      else Inl ValueError)"

section \<open>The external decoder\<close>

text \<open>
  Modelled from the spec: the decoder (\<open>pgenlib.PgenReader\<close>) is an external library, not
  part of this repository; section 6 of the specification gives its contract. The content
  of a pgen file is its two counts, the dosage of every variant and raw sample, and the raw
  allele codes of every variant, interleaved (codes \<open>2n\<close> and \<open>2n+1\<close> belong to sample \<open>n\<close>).
  Opening takes an optional sorted sequence of sample positions: a sequence that is not
  strictly increasing or leaves the file is refused. A read fills the caller's buffer,
  whose shape must fit, with the values of the requested variants for the session's
  samples; a range read takes an exclusive end.
\<close>

record 'd pgen =
  raw_sample_ct :: nat
  raw_variant_ct :: nat
  dosage_of :: "nat \<Rightarrow> nat \<Rightarrow> 'd"
  allele_of :: "nat \<Rightarrow> nat \<Rightarrow> int"

record 'd PgenReader =
  reader_file :: "'d pgen"
  reader_subset :: "nat list option"

definition subset_ok :: "'d pgen \<Rightarrow> nat list option \<Rightarrow> bool" where
  "subset_ok f ss =
     (case ss of None \<Rightarrow> True
      | Some xs \<Rightarrow> sorted_wrt (<) xs \<and> list_all (\<lambda>i. i < raw_sample_ct f) xs)"

definition PgenReader_open :: "'d pgen \<Rightarrow> nat list option \<Rightarrow> error + 'd PgenReader" where
  "PgenReader_open f ss =
     (if subset_ok f ss then Inr \<lparr>reader_file = f, reader_subset = ss\<rparr> else Inl DecoderError)"

definition get_raw_sample_ct :: "'d PgenReader \<Rightarrow> nat" where
  "get_raw_sample_ct r = raw_sample_ct (reader_file r)"

definition selected :: "'d PgenReader \<Rightarrow> nat list" where
  "selected r = (case reader_subset r of None \<Rightarrow> [0..<raw_sample_ct (reader_file r)] | Some xs \<Rightarrow> xs)"

definition dosage_row :: "'d PgenReader \<Rightarrow> nat \<Rightarrow> 'd list" where
  "dosage_row r v = map (dosage_of (reader_file r) v) (selected r)"

definition allele_row :: "'d PgenReader \<Rightarrow> nat \<Rightarrow> int list" where
  "allele_row r v =
     concat (map (\<lambda>s. [allele_of (reader_file r) v (2 * s), allele_of (reader_file r) v (2 * s + 1)])
       (selected r))"

definition variants_ok :: "'d PgenReader \<Rightarrow> nat list \<Rightarrow> bool" where
  "variants_ok r vs = list_all (\<lambda>v. v < raw_variant_ct (reader_file r)) vs"

definition range_ok :: "'d PgenReader \<Rightarrow> int \<Rightarrow> int \<Rightarrow> bool" where
  "range_ok r start end_excl =
     (0 \<le> start \<and> start \<le> end_excl \<and> end_excl \<le> int (raw_variant_ct (reader_file r)))"

definition decode_dosages :: "'d PgenReader \<Rightarrow> nat \<Rightarrow> 'd list \<Rightarrow> error + 'd list" where
  "decode_dosages r v buf =
     (if variants_ok r [v] \<and> length buf = length (selected r)
      then Inr (dosage_row r v) else Inl DecoderError)"

definition decode_alleles :: "'d PgenReader \<Rightarrow> nat \<Rightarrow> int list \<Rightarrow> error + int list" where
  "decode_alleles r v buf =
     (if variants_ok r [v] \<and> length buf = 2 * length (selected r)
      then Inr (allele_row r v) else Inl DecoderError)"

definition decode_dosages_list :: "'d PgenReader \<Rightarrow> nat list \<Rightarrow> 'd ndarray \<Rightarrow> error + 'd ndarray" where
  "decode_dosages_list r vs buf =
     (if variants_ok r vs \<and> shape0 buf = length vs \<and> shape1 buf = length (selected r)
      then Inr (buf\<lparr>cells := map (dosage_row r) vs\<rparr>) else Inl DecoderError)"

definition decode_alleles_list :: "'d PgenReader \<Rightarrow> nat list \<Rightarrow> int ndarray \<Rightarrow> error + int ndarray" where
  "decode_alleles_list r vs buf =
     (if variants_ok r vs \<and> shape0 buf = length vs \<and> shape1 buf = 2 * length (selected r)
      then Inr (buf\<lparr>cells := map (allele_row r) vs\<rparr>) else Inl DecoderError)"

definition decode_dosages_range :: "'d PgenReader \<Rightarrow> int \<Rightarrow> int \<Rightarrow> 'd ndarray \<Rightarrow> error + 'd ndarray" where
  "decode_dosages_range r start end_excl buf =
     (if range_ok r start end_excl \<and> int (shape0 buf) = end_excl - start
         \<and> shape1 buf = length (selected r)
      then Inr (buf\<lparr>cells := map (dosage_row r) [nat start..<nat end_excl]\<rparr>)
      else Inl DecoderError)"

definition decode_alleles_range :: "'d PgenReader \<Rightarrow> int \<Rightarrow> int \<Rightarrow> int ndarray \<Rightarrow> error + int ndarray" where
  "decode_alleles_range r start end_excl buf =
     (if range_ok r start end_excl \<and> int (shape0 buf) = end_excl - start
         \<and> shape1 buf = 2 * length (selected r)
      then Inr (buf\<lparr>cells := map (allele_row r) [nat start..<nat end_excl]\<rparr>)
      else Inl DecoderError)"

section \<open>The module-level readers\<close>

text \<open>
  Every reader returns, next to its result, the decoder calls it made, in order. The
  constructor of the reader is the first call; a session that was opened is closed on
  every path out of the \<open>with\<close> block.
\<close>

datatype decoder_call =
    Open "nat list option"
  | GetRawSampleCt
  | ReadDosages nat
  | ReadAlleles nat
  | ReadDosagesList "nat list"
  | ReadAllelesList "nat list"
  | ReadDosagesRange int int
  | ReadAllelesRange int int
  | Close

text \<open>
  The sample count every reader computes after opening: the raw count of the file, asked
  from the decoder, when there is no subset, and the length of the subset otherwise.
\<close>

definition num_samples_of :: "'d PgenReader \<Rightarrow> nat list option \<Rightarrow> decoder_call list \<times> nat" where
  "num_samples_of r arr =
     (case arr of
        None \<Rightarrow> ([GetRawSampleCt], get_raw_sample_ct r)
      | Some xs \<Rightarrow> ([], length xs))"

text \<open>
  In every reader \<open>sample_subset\<close> is the argument, a list of Python ints or \<open>None\<close>, and
  \<open>arr\<close> is the array it is converted to before the decoder is opened; when the
  conversion raises, no decoder call has been made.
\<close>

definition read_dosages ::
  "('d::zero) pgen \<Rightarrow> nat \<Rightarrow> int list option \<Rightarrow> decoder_call list \<times> (error + 'd list)" where
  "read_dosages pgen_path variant_idx sample_subset =
     (case subset_array sample_subset of
        Inl e \<Rightarrow> ([], Inl e)
      | Inr arr \<Rightarrow>
          (case PgenReader_open pgen_path arr of
             Inl e \<Rightarrow> ([Open arr], Inl e)
           | Inr r \<Rightarrow>
               (case num_samples_of r arr of
                  (calls, num_samples) \<Rightarrow>
                    (Open arr # calls @ [ReadDosages variant_idx, Close],
                     decode_dosages r variant_idx (replicate num_samples 0)))))"

definition read_alleles ::
  "'d pgen \<Rightarrow> nat \<Rightarrow> int list option \<Rightarrow> decoder_call list \<times> (error + int list)" where
  "read_alleles pgen_path variant_idx sample_subset =
     (case subset_array sample_subset of
        Inl e \<Rightarrow> ([], Inl e)
      | Inr arr \<Rightarrow>
          (case PgenReader_open pgen_path arr of
             Inl e \<Rightarrow> ([Open arr], Inl e)
           | Inr r \<Rightarrow>
               (case num_samples_of r arr of
                  (calls, num_samples) \<Rightarrow>
                    (Open arr # calls @ [ReadAlleles variant_idx, Close],
                     decode_alleles r variant_idx (replicate (2 * num_samples) 0)))))"

definition read_dosages_list ::
  "('d::zero) pgen \<Rightarrow> nat list \<Rightarrow> int list option \<Rightarrow> decoder_call list \<times> (error + 'd ndarray)" where
  "read_dosages_list pgen_path variant_idxs sample_subset =
     (case subset_array sample_subset of
        Inl e \<Rightarrow> ([], Inl e)
      | Inr arr \<Rightarrow>
          (case PgenReader_open pgen_path arr of
             Inl e \<Rightarrow> ([Open arr], Inl e)
           | Inr r \<Rightarrow>
               (case num_samples_of r arr of
                  (calls, num_samples) \<Rightarrow>
                    (case np_zeros (int (length variant_idxs)) num_samples of
                       Inl e \<Rightarrow> (Open arr # calls @ [Close], Inl e)
                     | Inr dosages \<Rightarrow>
                         (Open arr # calls @ [ReadDosagesList variant_idxs, Close],
                          decode_dosages_list r variant_idxs dosages)))))"

definition read_alleles_list ::
  "'d pgen \<Rightarrow> nat list \<Rightarrow> int list option \<Rightarrow> decoder_call list \<times> (error + int ndarray)" where
  "read_alleles_list pgen_path variant_idxs sample_subset =
     (case subset_array sample_subset of
        Inl e \<Rightarrow> ([], Inl e)
      | Inr arr \<Rightarrow>
          (case PgenReader_open pgen_path arr of
             Inl e \<Rightarrow> ([Open arr], Inl e)
           | Inr r \<Rightarrow>
               (case num_samples_of r arr of
                  (calls, num_samples) \<Rightarrow>
                    (case np_zeros (int (length variant_idxs)) (2 * num_samples) of
                       Inl e \<Rightarrow> (Open arr # calls @ [Close], Inl e)
                     | Inr alleles \<Rightarrow>
                         (Open arr # calls @ [ReadAllelesList variant_idxs, Close],
                          decode_alleles_list r variant_idxs alleles)))))"

definition read_dosages_range ::
  "('d::zero) pgen \<Rightarrow> int \<Rightarrow> int \<Rightarrow> int list option \<Rightarrow> decoder_call list \<times> (error + 'd ndarray)" where
  "read_dosages_range pgen_path start_idx end_idx sample_subset =
     (case subset_array sample_subset of
        Inl e \<Rightarrow> ([], Inl e)
      | Inr arr \<Rightarrow>
          (case PgenReader_open pgen_path arr of
             Inl e \<Rightarrow> ([Open arr], Inl e)
           | Inr r \<Rightarrow>
               (case num_samples_of r arr of
                  (calls, num_samples) \<Rightarrow>
                    (case np_zeros (end_idx - start_idx + 1) num_samples of
                       Inl e \<Rightarrow> (Open arr # calls @ [Close], Inl e)
                     | Inr dosages \<Rightarrow>
                         (Open arr # calls @ [ReadDosagesRange start_idx (end_idx + 1), Close],
                          decode_dosages_range r start_idx (end_idx + 1) dosages)))))"

definition read_alleles_range ::
  "'d pgen \<Rightarrow> int \<Rightarrow> int \<Rightarrow> int list option \<Rightarrow> decoder_call list \<times> (error + int ndarray)" where
  "read_alleles_range pgen_path start_idx end_idx sample_subset =
     (case subset_array sample_subset of
        Inl e \<Rightarrow> ([], Inl e)
      | Inr arr \<Rightarrow>
          (case PgenReader_open pgen_path arr of
             Inl e \<Rightarrow> ([Open arr], Inl e)
           | Inr r \<Rightarrow>
               (case num_samples_of r arr of
                  (calls, num_samples) \<Rightarrow>
                    (case np_zeros (end_idx - start_idx + 1) (2 * num_samples) of
                       Inl e \<Rightarrow> (Open arr # calls @ [Close], Inl e)
                     | Inr alleles \<Rightarrow>
                         (Open arr # calls @ [ReadAllelesRange start_idx (end_idx + 1), Close],
                          decode_alleles_range r start_idx (end_idx + 1) alleles)))))"

section \<open>The session class\<close>

text \<open>
  The parsed sidecar tables enter as the id column of the variant table and the index of
  the sample table; reading the two text files is outside the model.
\<close>

record 'd Pgen =
  pvar_df_id :: "string list"
  pgen_file :: "'d pgen"
  num_variants :: nat
  variant_ids :: "string list"
  variant_idx_dict :: "string \<rightharpoonup> nat"
  sample_id_list :: "string list"
  sample_ids :: "string list"
  sample_idxs :: "nat list option"

text \<open>\<open>{i:k for k,i in enumerate(ids)}\<close>: every row stores its position under its id.\<close>

definition build_idx_dict :: "string list \<Rightarrow> (string \<rightharpoonup> nat)" where
  "build_idx_dict ids = fold (\<lambda>(k, i) m. m(i \<mapsto> k)) (enumerate 0 ids) Map.empty"

text \<open>\<open>list.index\<close>: the position of the first equal element, ValueError when there is none.\<close>

fun list_index :: "'a list \<Rightarrow> 'a \<Rightarrow> error + nat" where
  "list_index [] x = Inl ValueError"
| "list_index (y # ys) x =
     (if y = x then Inr 0
      else (case list_index ys x of Inl e \<Rightarrow> Inl e | Inr k \<Rightarrow> Inr (Suc k)))"

text \<open>A list comprehension over a call that can raise stops at the first error.\<close>

fun index_each :: "'a list \<Rightarrow> 'a list \<Rightarrow> error + nat list" where
  "index_each xs [] = Inr []"
| "index_each xs (i # rest) =
     (case list_index xs i of
        Inl e \<Rightarrow> Inl e
      | Inr k \<Rightarrow> (case index_each xs rest of Inl e \<Rightarrow> Inl e | Inr ks \<Rightarrow> Inr (k # ks)))"

fun lookup_each :: "('k \<rightharpoonup> nat) \<Rightarrow> 'k list \<Rightarrow> error + nat list" where
  "lookup_each d [] = Inr []"
| "lookup_each d (i # rest) =
     (case d i of
        None \<Rightarrow> Inl KeyError
      | Some k \<Rightarrow> (case lookup_each d rest of Inl e \<Rightarrow> Inl e | Inr ks \<Rightarrow> Inr (k # ks)))"

text \<open>
  \<open>np.argsort\<close>: the positions of a list in ascending order of their values. Positions of
  equal values are kept in their order here; what \<open>set_samples\<close> computes from the result
  does not depend on that choice (lemma \<open>set_samples_argsort_choice\<close> below).
\<close>

definition argsort :: "nat list \<Rightarrow> nat list" where
  "argsort xs = sort_key (\<lambda>i. xs ! i) [0..<length xs]"

definition set_samples :: "'d Pgen \<Rightarrow> string list option \<Rightarrow> bool \<Rightarrow> error + 'd Pgen" where
  "set_samples self sample_ids_arg do_sort =
     (case sample_ids_arg of
        None \<Rightarrow> Inr (self\<lparr>sample_ids := sample_id_list self, sample_idxs := None\<rparr>)
      | Some ids \<Rightarrow>
          (case index_each (sample_id_list self) ids of
             Inl e \<Rightarrow> Inl e
           | Inr idxs \<Rightarrow>
               (if do_sort
                then (let sidx = argsort idxs
                      in Inr (self\<lparr>sample_ids := map (\<lambda>i. ids ! i) sidx,
                                   sample_idxs := Some (map (\<lambda>i. idxs ! i) sidx)\<rparr>))
                else Inr (self\<lparr>sample_ids := ids, sample_idxs := Some idxs\<rparr>))))"

text \<open>
  The constructor: \<open>pvar\<close> is the id column of the variant table, \<open>psam\<close> the index of the
  sample table. The selection is resolved with the default \<open>sort=True\<close>.
\<close>

definition Pgen_init :: "string list \<Rightarrow> string list \<Rightarrow> 'd pgen \<Rightarrow> string list option \<Rightarrow> error + 'd Pgen" where
  "Pgen_init pvar psam file select_samples =
     set_samples
       \<lparr>pvar_df_id = pvar, pgen_file = file, num_variants = length pvar, variant_ids = pvar,
        variant_idx_dict = build_idx_dict pvar, sample_id_list = psam,
        sample_ids = [], sample_idxs = None\<rparr>
       select_samples True"

definition Pgen_read_dosages_list ::
  "('d::zero) Pgen \<Rightarrow> string list \<Rightarrow> decoder_call list \<times> (error + 'd DataFrame)" where
  "Pgen_read_dosages_list self ids =
     (case lookup_each (variant_idx_dict self) ids of
        Inl e \<Rightarrow> ([], Inl e)
      | Inr variant_idxs \<Rightarrow>
          (case read_dosages_list (pgen_file self) variant_idxs None of
             (calls, Inl e) \<Rightarrow> (calls, Inl e)
           | (calls, Inr dosages) \<Rightarrow> (calls, DataFrame_new dosages ids (sample_ids self))))"

definition Pgen_read_alleles_list ::
  "'d Pgen \<Rightarrow> string list \<Rightarrow> decoder_call list \<times> (error + int DataFrame \<times> int DataFrame)" where
  "Pgen_read_alleles_list self ids =
     (case lookup_each (variant_idx_dict self) ids of
        Inl e \<Rightarrow> ([], Inl e)
      | Inr variant_idxs \<Rightarrow>
          (case read_alleles_list (pgen_file self) variant_idxs (map_option (map int) (sample_idxs self)) of
             (calls, Inl e) \<Rightarrow> (calls, Inl e)
           | (calls, Inr alleles) \<Rightarrow>
               (case DataFrame_new (cols_even alleles) ids (sample_ids self) of
                  Inl e \<Rightarrow> (calls, Inl e)
                | Inr df1 \<Rightarrow>
                    (case DataFrame_new (cols_odd alleles) ids (sample_ids self) of
                       Inl e \<Rightarrow> (calls, Inl e)
                     | Inr df2 \<Rightarrow> (calls, Inr (df1, df2))))))"

definition Pgen_load_dosages_df ::
  "('d::zero) Pgen \<Rightarrow> decoder_call list \<times> (error + 'd DataFrame)" where
  "Pgen_load_dosages_df self =
     (case read_dosages_range (pgen_file self) 0 (int (num_variants self) - 1)
             (map_option (map int) (sample_idxs self)) of
        (calls, Inl e) \<Rightarrow> (calls, Inl e)
      | (calls, Inr dosages) \<Rightarrow> (calls, DataFrame_new dosages (pvar_df_id self) (sample_ids self)))"

text \<open>The module-level \<open>load_dosages_df\<close>: construct a session, then load the full table.\<close>

definition load_dosages_df ::
  "string list \<Rightarrow> string list \<Rightarrow> ('d::zero) pgen \<Rightarrow> string list option
     \<Rightarrow> decoder_call list \<times> (error + 'd DataFrame)" where
  "load_dosages_df pvar psam file select_samples =
     (case Pgen_init pvar psam file select_samples of
        Inl e \<Rightarrow> ([], Inl e)
      | Inr p \<Rightarrow> Pgen_load_dosages_df p)"

section \<open>Reference notions and example data\<close>

text \<open>
  The position of the first exact match, in the words of the specification: the number of
  elements before the first one equal to the identifier.
\<close>

definition first_match :: "'a list \<Rightarrow> 'a \<Rightarrow> nat" where
  "first_match xs x = length (takeWhile (\<lambda>y. y \<noteq> x) xs)"


text \<open>
  A small file set used to evaluate the code: three samples, four variants, the dosage of
  variant \<open>v\<close> and sample \<open>s\<close> being \<open>10 v + s\<close>. Variant 1 carries the raw allele codes
  \<open>[0, 1, -9, -9, 1, 1]\<close>; every other variant \<open>v\<close> carries the code \<open>100 v + k\<close> at
  position \<open>k\<close> of its raw row, so that every entry tells its variant and its position.
\<close>

definition example_pgen :: "int pgen" where
  "example_pgen = \<lparr>raw_sample_ct = 3, raw_variant_ct = 4,
      dosage_of = (\<lambda>v s. int (10 * v + s)),
      allele_of = (\<lambda>v k. if v = 1 then [0, 1, - 9, - 9, 1, 1] ! k else int (100 * v + k))\<rparr>"

definition example_pvar :: "string list" where
  "example_pvar = [''v0'', ''v1'', ''v2'', ''v3'']"

definition example_psam :: "string list" where
  "example_psam = [''a'', ''b'', ''c'']"

text \<open>The session \<open>Pgen(prefix)\<close> over these files, with no sample selection.\<close>

definition example_session :: "int Pgen" where
  "example_session =
     \<lparr>pvar_df_id = example_pvar, pgen_file = example_pgen, num_variants = 4,
      variant_ids = example_pvar, variant_idx_dict = build_idx_dict example_pvar,
      sample_id_list = example_psam, sample_ids = example_psam, sample_idxs = None\<rparr>"

text \<open>A variant table in which the id \<open>x\<close> occurs twice.\<close>

definition duplicate_pvar :: "string list" where
  "duplicate_pvar = [''x'', ''y'', ''x'']"

definition duplicate_session :: "int Pgen" where
  "duplicate_session =
     \<lparr>pvar_df_id = duplicate_pvar, pgen_file = example_pgen, num_variants = 3,
      variant_ids = duplicate_pvar, variant_idx_dict = build_idx_dict duplicate_pvar,
      sample_id_list = example_psam, sample_ids = example_psam, sample_idxs = None\<rparr>"

text \<open>The session \<open>Pgen(prefix, select_samples=['c', 'a'])\<close> over the same files.\<close>

definition selected_session :: "int Pgen" where
  "selected_session = example_session\<lparr>sample_ids := [''a'', ''c''], sample_idxs := Some [0, 2]\<rparr>"

section \<open>Lookups, the index and the sort\<close>

lemma list_index_absent: "x \<notin> set xs \<Longrightarrow> list_index xs x = Inl ValueError"
  by (induction xs) auto

lemma list_index_first_match: "x \<in> set xs \<Longrightarrow> list_index xs x = Inr (first_match xs x)"
  by (induction xs) (auto simp: first_match_def)

lemma first_match_less: "x \<in> set xs \<Longrightarrow> first_match xs x < length xs"
  unfolding first_match_def by (induction xs) auto

lemma first_match_nth: "x \<in> set xs \<Longrightarrow> xs ! first_match xs x = x"
  unfolding first_match_def by (induction xs) auto

lemma first_match_least: "j < first_match xs x \<Longrightarrow> xs ! j \<noteq> x"
proof -
  let ?t = "takeWhile (\<lambda>y. y \<noteq> x) xs"
  assume "j < first_match xs x"
  then have j: "j < length ?t" by (simp add: first_match_def)
  then have "?t ! j \<in> set ?t" by (rule nth_mem)
  then have "?t ! j \<noteq> x" by (rule set_takeWhileD [THEN conjunct2])
  moreover have "?t ! j = xs ! j" using j by (rule takeWhile_nth)
  ultimately show ?thesis by simp
qed

lemma index_each_absent: "\<not> set ids \<subseteq> set xs \<Longrightarrow> index_each xs ids = Inl ValueError"
proof (induction ids)
  case Nil
  then show ?case by simp
next
  case (Cons i rest)
  show ?case
  proof (cases "i \<in> set xs")
    case False
    then show ?thesis by (simp add: list_index_absent)
  next
    case True
    with Cons.prems have "\<not> set rest \<subseteq> set xs" by simp
    with Cons.IH True show ?thesis by (simp add: list_index_first_match)
  qed
qed

lemma index_each_known: "set ids \<subseteq> set xs \<Longrightarrow> index_each xs ids = Inr (map (first_match xs) ids)"
  by (induction ids) (auto simp: list_index_first_match)

lemma lookup_each_unknown: "\<not> set ids \<subseteq> dom d \<Longrightarrow> lookup_each d ids = Inl KeyError"
proof (induction ids)
  case Nil
  then show ?case by simp
next
  case (Cons i rest)
  show ?case
  proof (cases "d i")
    case None
    then show ?thesis by simp
  next
    case (Some k)
    with Cons.prems have "\<not> set rest \<subseteq> dom d" by auto
    with Cons.IH Some show ?thesis by simp
  qed
qed

lemma lookup_each_known: "set ids \<subseteq> dom d \<Longrightarrow> lookup_each d ids = Inr (map (\<lambda>i. the (d i)) ids)"
  by (induction ids) auto

lemma build_idx_dict_snoc: "build_idx_dict (ids @ [i]) = (build_idx_dict ids)(i \<mapsto> length ids)"
  by (simp add: build_idx_dict_def enumerate_append_eq)

lemma build_idx_dict_Nil: "build_idx_dict [] = Map.empty"
  by (simp add: build_idx_dict_def)

lemma build_idx_dict_last:
  "build_idx_dict ids v = Some k \<longleftrightarrow>
     k < length ids \<and> ids ! k = v \<and> (\<forall>j. k < j \<and> j < length ids \<longrightarrow> ids ! j \<noteq> v)"
proof (induction ids rule: rev_induct)
  case Nil
  then show ?case by (simp add: build_idx_dict_Nil)
next
  case (snoc i ids)
  show ?case
  proof (cases "i = v")
    case True
    have "(length ids = k) = (k < Suc (length ids) \<and> (ids @ [v]) ! k = v
           \<and> (\<forall>j. k < j \<and> j < Suc (length ids) \<longrightarrow> (ids @ [v]) ! j \<noteq> v))"
    proof
      assume "length ids = k"
      then show "k < Suc (length ids) \<and> (ids @ [v]) ! k = v
           \<and> (\<forall>j. k < j \<and> j < Suc (length ids) \<longrightarrow> (ids @ [v]) ! j \<noteq> v)"
        by auto
    next
      assume r: "k < Suc (length ids) \<and> (ids @ [v]) ! k = v
           \<and> (\<forall>j. k < j \<and> j < Suc (length ids) \<longrightarrow> (ids @ [v]) ! j \<noteq> v)"
      show "length ids = k"
      proof (rule ccontr)
        assume "length ids \<noteq> k"
        with r have "k < length ids" by simp
        with r have "(ids @ [v]) ! length ids \<noteq> v" by blast
        then show False by simp
      qed
    qed
    with True show ?thesis by (simp add: build_idx_dict_snoc)
  next
    case False
    have "(k < length ids \<and> ids ! k = v \<and> (\<forall>j. k < j \<and> j < length ids \<longrightarrow> ids ! j \<noteq> v))
        = (k < Suc (length ids) \<and> (ids @ [i]) ! k = v
           \<and> (\<forall>j. k < j \<and> j < Suc (length ids) \<longrightarrow> (ids @ [i]) ! j \<noteq> v))"
      using False by (auto simp: nth_append less_Suc_eq)
    with False snoc.IH show ?thesis by (simp add: build_idx_dict_snoc)
  qed
qed

lemma build_idx_dict_dom: "dom (build_idx_dict ids) = set ids"
proof (induction ids rule: rev_induct)
  case Nil
  then show ?case by (simp add: build_idx_dict_Nil)
next
  case (snoc i ids)
  have "dom ((build_idx_dict ids)(i \<mapsto> length ids)) = insert i (dom (build_idx_dict ids))"
    by simp
  with snoc show ?case by (simp only: build_idx_dict_snoc set_append list.set Un_insert_right Un_empty_right)
qed

lemma build_idx_dict_distinct:
  assumes "distinct ids" "k < length ids"
  shows "build_idx_dict ids (ids ! k) = Some k"
proof -
  have "\<forall>j. k < j \<and> j < length ids \<longrightarrow> ids ! j \<noteq> ids ! k"
    using assms by (auto simp: nth_eq_iff_index_eq)
  with assms show ?thesis by (simp add: build_idx_dict_last)
qed

lemma map_insort_key: "map f (insort_key f y zs) = insort (f y) (map f zs)"
  by (induction zs) auto

lemma map_sort_key: "map f (sort_key f ys) = sort (map f ys)"
  by (induction ys) (auto simp: map_insort_key)

lemma map_nth_argsort: "map ((!) xs) (argsort xs) = sort xs"
  by (simp add: argsort_def map_sort_key map_nth)

lemma set_argsort: "set (argsort xs) = {0..<length xs}"
  by (simp add: argsort_def)

lemma argsort_choice:
  assumes "mset sidx = mset [0..<length ks]" and "sorted (map ((!) ks) sidx)"
  shows "map ((!) ks) sidx = sort ks"
proof -
  have "image_mset ((!) ks) (mset sidx) = image_mset ((!) ks) (mset [0..<length ks])"
    using assms(1) by (rule arg_cong)
  then have "mset (map ((!) ks) sidx) = mset (map ((!) ks) [0..<length ks])"
    by (simp only: mset_map)
  then have "mset (map ((!) ks) sidx) = mset ks" by (simp add: map_nth)
  then show ?thesis using assms(2) by (rule properties_for_sort [symmetric])
qed

lemma relabel_sorted:
  assumes "length ks = length ids" and "\<forall>i<length ids. ids ! i = xs ! (ks ! i)"
    and "set sidx \<subseteq> {0..<length ks}"
  shows "map ((!) ids) sidx = map ((!) xs) (map ((!) ks) sidx)"
  using assms by (auto simp: subset_iff)

lemma set_samples_None:
  "set_samples self None do_sort = Inr (self\<lparr>sample_ids := sample_id_list self, sample_idxs := None\<rparr>)"
  by (simp add: set_samples_def)

lemma set_samples_absent:
  "\<not> set ids \<subseteq> set (sample_id_list self) \<Longrightarrow> set_samples self (Some ids) do_sort = Inl ValueError"
  by (simp add: set_samples_def index_each_absent)

lemma set_samples_unsorted:
  "set ids \<subseteq> set (sample_id_list self) \<Longrightarrow>
   set_samples self (Some ids) False =
     Inr (self\<lparr>sample_ids := ids, sample_idxs := Some (map (first_match (sample_id_list self)) ids)\<rparr>)"
  by (simp add: set_samples_def index_each_known)

lemma set_samples_sorted:
  assumes "set ids \<subseteq> set (sample_id_list self)"
  shows "set_samples self (Some ids) True =
     Inr (self\<lparr>sample_ids := map ((!) (sample_id_list self)) (sort (map (first_match (sample_id_list self)) ids)),
               sample_idxs := Some (sort (map (first_match (sample_id_list self)) ids))\<rparr>)"
proof -
  let ?xs = "sample_id_list self"
  let ?ks = "map (first_match ?xs) ids"
  have "\<forall>i<length ids. ids ! i = ?xs ! (?ks ! i)"
    using assms by (auto simp: first_match_nth subset_iff)
  then have "map ((!) ids) (argsort ?ks) = map ((!) ?xs) (map ((!) ?ks) (argsort ?ks))"
    by (intro relabel_sorted) (simp_all add: set_argsort)
  then have "map ((!) ids) (argsort ?ks) = map ((!) ?xs) (sort ?ks)"
    by (simp only: map_nth_argsort)
  moreover have "map ((!) ?ks) (argsort ?ks) = sort ?ks" by (rule map_nth_argsort)
  ultimately show ?thesis
    using assms by (simp add: set_samples_def index_each_known Let_def)
qed

lemma sort_map_perm:
  fixes f :: "'a \<Rightarrow> nat"
  assumes "mset ids' = mset ids"
  shows "sort (map f ids') = sort (map f ids)"
proof -
  have "image_mset f (mset ids') = image_mset f (mset ids)"
    using assms by (rule arg_cong)
  then have "mset (sort (map f ids)) = mset (map f ids')" by (simp only: mset_map mset_sort)
  then show ?thesis by (rule properties_for_sort) simp
qed

lemma example_init: "Pgen_init example_pvar example_psam example_pgen None = Inr example_session"
  by (simp add: Pgen_init_def set_samples_def example_session_def example_pvar_def)

lemma duplicate_init: "Pgen_init duplicate_pvar example_psam example_pgen None = Inr duplicate_session"
  by (simp add: Pgen_init_def set_samples_def duplicate_session_def duplicate_pvar_def)

lemma Pgen_init_fields:
  assumes "Pgen_init pvar psam file sel = Inr self"
  shows "pvar_df_id self = pvar" "pgen_file self = file" "num_variants self = length pvar"
    "variant_ids self = pvar" "variant_idx_dict self = build_idx_dict pvar" "sample_id_list self = psam"
  using assms
  by (auto simp: Pgen_init_def set_samples_def Let_def split: option.splits sum.splits if_splits)
lemma example_first_match:
  "first_match example_psam ''a'' = 0" "first_match example_psam ''b'' = 1"
  "first_match example_psam ''c'' = 2"
  by (simp_all add: first_match_def example_psam_def)

lemma selected_init:
  "Pgen_init example_pvar example_psam example_pgen (Some [''c'', ''a'']) = Inr selected_session"
proof -
  have "set [''c'', ''a''] \<subseteq> set (sample_id_list
      \<lparr>pvar_df_id = example_pvar, pgen_file = example_pgen, num_variants = length example_pvar,
       variant_ids = example_pvar, variant_idx_dict = build_idx_dict example_pvar,
       sample_id_list = example_psam, sample_ids = [], sample_idxs = None\<rparr>)"
    by (simp add: example_psam_def)
  from set_samples_sorted [OF this] show ?thesis
    by (simp add: Pgen_init_def selected_session_def example_session_def example_first_match)
       (simp add: example_psam_def example_pvar_def)
qed

lemma set_samples_known_False:
  "set_samples example_session (Some [''c'', ''a'']) False
     = Inr (example_session\<lparr>sample_ids := [''c'', ''a''], sample_idxs := Some [2, 0]\<rparr>)"
proof -
  have "set [''c'', ''a''] \<subseteq> set (sample_id_list example_session)"
    by (simp add: example_session_def example_psam_def)
  from set_samples_unsorted [OF this] show ?thesis
    by (simp add: example_session_def example_first_match)
qed

lemma set_samples_known_True:
  "set_samples example_session (Some [''c'', ''a'']) True = Inr selected_session"
proof -
  have "set [''c'', ''a''] \<subseteq> set (sample_id_list example_session)"
    by (simp add: example_session_def example_psam_def)
  from set_samples_sorted [OF this] show ?thesis
    by (simp add: selected_session_def example_session_def example_first_match)
       (simp add: example_psam_def)
qed

lemma subset_array_None: "subset_array None = Inr None"
  by (simp add: subset_array_def)

lemma subset_array_overflow:
  "\<not> list_all (\<lambda>i. 0 \<le> i \<and> i < 2 ^ 32) xs \<Longrightarrow> subset_array (Some xs) = Inl OverflowError"
  by (simp add: subset_array_def uint32_array_def)

lemma subset_array_Some:
  "list_all (\<lambda>i. 0 \<le> i \<and> i < 2 ^ 32) xs \<Longrightarrow> subset_array (Some xs) = Inr (Some (map nat xs))"
  by (simp add: subset_array_def uint32_array_def)

lemma subset_array_nat:
  assumes "list_all (\<lambda>k. k < 2 ^ 32) ks"
  shows "subset_array (Some (map int ks)) = Inr (Some ks)"
proof -
  have "list_all (\<lambda>i. 0 \<le> i \<and> i < 2 ^ 32) (map int ks)"
    using assms by (induction ks) simp_all
  then have "subset_array (Some (map int ks)) = Inr (Some (map nat (map int ks)))"
    by (rule subset_array_Some)
  then show ?thesis by (simp add: comp_def)
qed

lemma sorted_wrt_map_nat:
  "list_all (\<lambda>i. 0 \<le> i) xs \<Longrightarrow> sorted_wrt (<) (map nat xs) = sorted_wrt (<) xs"
  by (induction xs) (auto simp: list_all_iff)

lemma open_refused: "\<not> subset_ok f ss \<Longrightarrow> PgenReader_open f ss = Inl DecoderError"
  by (simp add: PgenReader_open_def)

lemma open_accepted:
  "subset_ok f ss \<Longrightarrow> PgenReader_open f ss = Inr \<lparr>reader_file = f, reader_subset = ss\<rparr>"
  by (simp add: PgenReader_open_def)

lemma unsorted_refused: "\<not> sorted_wrt (<) xs \<Longrightarrow> \<not> subset_ok f (Some xs)"
  by (simp add: subset_ok_def)

lemma num_samples_of_selected:
  "num_samples_of \<lparr>reader_file = f, reader_subset = ss\<rparr> ss =
     ((case ss of None \<Rightarrow> [GetRawSampleCt] | Some xs \<Rightarrow> []),
      length (selected \<lparr>reader_file = f, reader_subset = ss\<rparr>))"
  by (simp add: num_samples_of_def selected_def get_raw_sample_ct_def split: option.splits)


lemma np_zeros_shape:
  "0 \<le> n \<Longrightarrow> np_zeros n m = Inr \<lparr>shape0 = nat n, shape1 = m, cells = replicate (nat n) (replicate m 0)\<rparr>"
  by (simp add: np_zeros_def)

lemma read_dosages_ok:
  assumes "subset_array sample_subset = Inr ss" and "subset_ok f ss" and "v < raw_variant_ct f"
  shows "read_dosages f v sample_subset =
    (Open ss # (case ss of None \<Rightarrow> [GetRawSampleCt] | Some xs \<Rightarrow> []) @ [ReadDosages v, Close],
     Inr (dosage_row \<lparr>reader_file = f, reader_subset = ss\<rparr> v))"
  using assms
  by (simp add: read_dosages_def open_accepted num_samples_of_selected decode_dosages_def variants_ok_def)

lemma read_dosages_range_ok:
  assumes "subset_array sample_subset = Inr ss" and "subset_ok f ss" and "0 \<le> start_idx"
    and "start_idx \<le> end_idx + 1" and "end_idx < int (raw_variant_ct f)"
  shows "read_dosages_range f start_idx end_idx sample_subset =
    (Open ss # (case ss of None \<Rightarrow> [GetRawSampleCt] | Some xs \<Rightarrow> [])
       @ [ReadDosagesRange start_idx (end_idx + 1), Close],
     Inr \<lparr>shape0 = nat (end_idx - start_idx + 1),
          shape1 = length (selected \<lparr>reader_file = f, reader_subset = ss\<rparr>),
          cells = map (dosage_row \<lparr>reader_file = f, reader_subset = ss\<rparr>)
                    [nat start_idx..<nat (end_idx + 1)]\<rparr>)"
proof -
  have z: "0 \<le> end_idx - start_idx + 1" using assms(4) by simp
  have s: "int (nat (end_idx - start_idx + 1)) = end_idx + 1 - start_idx" using assms(4) by simp
  show ?thesis
    using assms
    by (simp add: read_dosages_range_def open_accepted num_samples_of_selected
        np_zeros_shape [OF z] decode_dosages_range_def range_ok_def s del: nat_int int_nat_eq)
qed



lemma example_subset_ok: "subset_ok example_pgen None" "subset_ok example_pgen (Some [0, 2])"
  by (simp_all add: subset_ok_def example_pgen_def)

lemma example_subset_array:
  "subset_array (Some [0, 2]) = Inr (Some [0, 2])" "subset_array (Some [2, 0]) = Inr (Some [2, 0])"
  "subset_array (Some [1, 1]) = Inr (Some [1, 1])"
  by (simp_all add: subset_array_def uint32_array_def)

lemma length_step2: "length (step2 xs) = (length xs + 1) div 2"
  by (induction xs rule: step2.induct) simp_all

lemma nth_step2: "2 * j < length xs \<Longrightarrow> step2 xs ! j = xs ! (2 * j)"
proof (induction xs arbitrary: j rule: step2.induct)
  case 1
  then show ?case by simp
next
  case (2 x)
  then show ?case by simp
next
  case (3 x y zs)
  show ?case
  proof (cases j)
    case 0
    then show ?thesis by simp
  next
    case (Suc i)
    with "3.prems" have "2 * i < length zs" by simp
    then have "step2 zs ! i = zs ! (2 * i)" by (rule "3.IH")
    with Suc show ?thesis by simp
  qed
qed

lemma nth_step2_drop: "2 * j + 1 < length xs \<Longrightarrow> step2 (drop 1 xs) ! j = xs ! (2 * j + 1)"
proof -
  assume a: "2 * j + 1 < length xs"
  then have "2 * j < length (drop 1 xs)" by simp
  then have "step2 (drop 1 xs) ! j = drop 1 xs ! (2 * j)" by (rule nth_step2)
  also have "\<dots> = xs ! (2 * j + 1)" using a by simp
  finally show ?thesis .
qed

lemma length_allele_row: "length (allele_row r v) = 2 * length (selected r)"
  by (simp add: allele_row_def length_concat comp_def sum_list_triv)

lemma read_alleles_list_ok:
  assumes "subset_array sample_subset = Inr ss" and "subset_ok f ss"
    and "list_all (\<lambda>v. v < raw_variant_ct f) vs"
  shows "read_alleles_list f vs sample_subset =
    (Open ss # (case ss of None \<Rightarrow> [GetRawSampleCt] | Some xs \<Rightarrow> []) @ [ReadAllelesList vs, Close],
     Inr \<lparr>shape0 = length vs,
          shape1 = 2 * length (selected \<lparr>reader_file = f, reader_subset = ss\<rparr>),
          cells = map (allele_row \<lparr>reader_file = f, reader_subset = ss\<rparr>) vs\<rparr>)"
  using assms
  by (simp add: read_alleles_list_def open_accepted num_samples_of_selected np_zeros_def
      decode_alleles_list_def variants_ok_def)

lemma read_dosages_list_ok:
  assumes "subset_array sample_subset = Inr ss" and "subset_ok f ss"
    and "list_all (\<lambda>v. v < raw_variant_ct f) vs"
  shows "read_dosages_list f vs sample_subset =
    (Open ss # (case ss of None \<Rightarrow> [GetRawSampleCt] | Some xs \<Rightarrow> []) @ [ReadDosagesList vs, Close],
     Inr \<lparr>shape0 = length vs,
          shape1 = length (selected \<lparr>reader_file = f, reader_subset = ss\<rparr>),
          cells = map (dosage_row \<lparr>reader_file = f, reader_subset = ss\<rparr>) vs\<rparr>)"
  using assms
  by (simp add: read_dosages_list_def open_accepted num_samples_of_selected np_zeros_def
      decode_dosages_list_def variants_ok_def)

lemma example_lookup:
  "lookup_each (build_idx_dict example_pvar) [''v1''] = Inr [1]"
proof -
  have "distinct example_pvar" and "1 < length example_pvar" by (simp_all add: example_pvar_def)
  then have "build_idx_dict example_pvar (example_pvar ! 1) = Some 1"
    by (rule build_idx_dict_distinct)
  then have "build_idx_dict example_pvar ''v1'' = Some 1" by (simp add: example_pvar_def)
  then show ?thesis by simp
qed

lemma step2_interleaved: "step2 (concat (map (\<lambda>s. [g s, h s]) sel)) = map g sel"
  by (induction sel) simp_all

lemma step2_drop_interleaved: "step2 (drop 1 (concat (map (\<lambda>s. [g s, h s]) sel))) = map h sel"
proof (cases sel)
  case Nil
  then show ?thesis by simp
next
  case (Cons s rest)
  have "step2 (h s # concat (map (\<lambda>s. [g s, h s]) rest)) = h s # map h rest" for s
    by (induction rest arbitrary: s) simp_all
  with Cons show ?thesis by simp
qed

lemma example_dict:
  "build_idx_dict example_pvar ''v1'' = Some 1" "build_idx_dict example_pvar ''v3'' = Some 3"
proof -
  have d: "distinct example_pvar" by (simp add: example_pvar_def)
  have "1 < length example_pvar" and "3 < length example_pvar" by (simp_all add: example_pvar_def)
  then have "build_idx_dict example_pvar (example_pvar ! 1) = Some 1"
    and "build_idx_dict example_pvar (example_pvar ! 3) = Some 3"
    using d by (simp_all only: build_idx_dict_distinct)
  then show "build_idx_dict example_pvar ''v1'' = Some 1"
    and "build_idx_dict example_pvar ''v3'' = Some 3"
    by (simp_all add: example_pvar_def)
qed

text \<open>
  Any order among positions of equal values gives \<open>set_samples\<close> the same two sequences:
  whatever permutation \<open>sidx\<close> sorts the resolved positions, the positions and the ids taken
  along it are the sorted positions and the sample table's ids there.
\<close>

lemma set_samples_argsort_choice:
  assumes "set ids \<subseteq> set xs" and "ks = map (first_match xs) ids"
    and "mset sidx = mset [0..<length ks]" and "sorted (map ((!) ks) sidx)"
  shows "map ((!) ks) sidx = sort ks" and "map ((!) ids) sidx = map ((!) xs) (sort ks)"
proof -
  show pos: "map ((!) ks) sidx = sort ks"
    using assms(3) assms(4) by (rule argsort_choice)
  have "set sidx = set [0..<length ks]" using assms(3) by (rule mset_eq_setD)
  then have inside: "set sidx \<subseteq> {0..<length ks}" by simp
  have len: "length ks = length ids" using assms(2) by simp
  have "\<forall>i<length ids. ids ! i = xs ! (ks ! i)"
    using assms(1) assms(2) by (auto simp: first_match_nth subset_iff)
  with len have "map ((!) ids) sidx = map ((!) xs) (map ((!) ks) sidx)"
    using inside by (rule relabel_sorted)
  then show "map ((!) ids) sidx = map ((!) xs) (sort ks)" by (simp only: pos)
qed

section \<open>Unknown variant identifiers\<close>

text \<open>
  Claim C7. When some requested variant id is not a key of the variant index, both id-keyed
  readers of the session, \<open>Pgen.read_dosages_list\<close> and \<open>Pgen.read_alleles_list\<close>, fail with
  KeyError; the list of decoder calls is empty, so no decoder session was opened, and there
  is no result buffer.
\<close>

theorem unknown_variant_id_KeyError:
  assumes "\<not> set ids \<subseteq> dom (variant_idx_dict self)"
  shows "Pgen_read_dosages_list self ids = ([], Inl KeyError)
       \<and> Pgen_read_alleles_list self ids = ([], Inl KeyError)"
  using assms
  by (simp add: Pgen_read_dosages_list_def Pgen_read_alleles_list_def lookup_each_unknown)

theorem unknown_variant_id_KeyError_witness:
  "\<not> set [''v1'', ''no-such-id''] \<subseteq> dom (variant_idx_dict example_session)
   \<and> Pgen_read_dosages_list example_session [''v1'', ''no-such-id''] = ([], Inl KeyError)
   \<and> Pgen_read_alleles_list example_session [''v1'', ''no-such-id''] = ([], Inl KeyError)"
proof -
  have h: "\<not> set [''v1'', ''no-such-id''] \<subseteq> dom (variant_idx_dict example_session)"
    by (simp add: example_session_def build_idx_dict_dom example_pvar_def)
  from unknown_variant_id_KeyError [OF h] h show ?thesis by simp
qed

section \<open>The variant index\<close>

text \<open>
  Claim C9. The index built by the constructor has exactly the ids of the variant table as
  keys. An id is mapped to a row position at which it stands, and to the last such position
  when it stands at several; when all ids are different, the id at row \<open>k\<close> is mapped to \<open>k\<close>,
  so the index inverts the table.
\<close>

theorem variant_index_last_wins:
  assumes "Pgen_init pvar psam file sel = Inr self"
  shows "dom (variant_idx_dict self) = set pvar
       \<and> (\<forall>v k. variant_idx_dict self v = Some k \<longleftrightarrow>
              k < length pvar \<and> pvar ! k = v \<and> (\<forall>j. k < j \<and> j < length pvar \<longrightarrow> pvar ! j \<noteq> v))
       \<and> (distinct pvar \<longrightarrow> (\<forall>k<length pvar. variant_idx_dict self (pvar ! k) = Some k))"
proof -
  have d: "variant_idx_dict self = build_idx_dict pvar"
    using assms by (rule Pgen_init_fields)
  show ?thesis
    unfolding d
    by (intro conjI allI impI build_idx_dict_dom build_idx_dict_last)
       (rule build_idx_dict_distinct)
qed

theorem variant_index_last_wins_witness:
  "Pgen_init duplicate_pvar example_psam example_pgen None = Inr duplicate_session
   \<and> variant_idx_dict duplicate_session ''x'' = Some 2
   \<and> variant_idx_dict duplicate_session ''y'' = Some 1
   \<and> Pgen_init example_pvar example_psam example_pgen None = Inr example_session
   \<and> distinct example_pvar
   \<and> variant_idx_dict example_session (example_pvar ! 3) = Some 3"
proof -
  have h: "Pgen_init duplicate_pvar example_psam example_pgen None = Inr duplicate_session"
    by (rule duplicate_init)
  from variant_index_last_wins [OF h]
  have iff: "\<And>v k. variant_idx_dict duplicate_session v = Some k \<longleftrightarrow>
      k < length duplicate_pvar \<and> duplicate_pvar ! k = v
      \<and> (\<forall>j. k < j \<and> j < length duplicate_pvar \<longrightarrow> duplicate_pvar ! j \<noteq> v)"
    by blast
  have x1: "2 < length duplicate_pvar" and x2: "duplicate_pvar ! 2 = ''x''"
    by (simp_all add: duplicate_pvar_def)
  have x3: "\<forall>j. 2 < j \<and> j < length duplicate_pvar \<longrightarrow> duplicate_pvar ! j \<noteq> ''x''"
    by (simp add: duplicate_pvar_def)
  have x: "variant_idx_dict duplicate_session ''x'' = Some 2"
    using iff [of "''x''" 2] x1 x2 x3 by blast
  have y1: "1 < length duplicate_pvar" and y2: "duplicate_pvar ! 1 = ''y''"
    by (simp_all add: duplicate_pvar_def)
  have y3: "\<forall>j. 1 < j \<and> j < length duplicate_pvar \<longrightarrow> duplicate_pvar ! j \<noteq> ''y''"
  proof (intro allI impI)
    fix j assume "1 < j \<and> j < length duplicate_pvar"
    then have "j = 2" by (simp add: duplicate_pvar_def)
    then show "duplicate_pvar ! j \<noteq> ''y''" by (simp add: duplicate_pvar_def)
  qed
  have y: "variant_idx_dict duplicate_session ''y'' = Some 1"
    using iff [of "''y''" 1] y1 y2 y3 by blast
  have g: "Pgen_init example_pvar example_psam example_pgen None = Inr example_session"
    by (rule example_init)
  have dist: "distinct example_pvar" by (simp add: example_pvar_def)
  from variant_index_last_wins [OF g] dist
  have "\<forall>k<length example_pvar. variant_idx_dict example_session (example_pvar ! k) = Some k"
    by blast
  moreover have "3 < length example_pvar" by (simp add: example_pvar_def)
  ultimately have z: "variant_idx_dict example_session (example_pvar ! 3) = Some 3"
    by blast
  from h x y g dist z show ?thesis by blast
qed

section \<open>Resolving a sample selection\<close>

text \<open>
  Claim C6, as amended. Resolving a selection that names an identifier absent from the sample
  table fails with ValueError, the exception of \<open>list.index\<close>, whatever the sort flag. When every
  requested identifier is present, the selection resolves, and each identifier is resolved to
  the position of its first exact match in the sample identifier sequence: the positions in
  request order without sorting, the same positions sorted ascending with sorting.
\<close>

theorem absent_sample_id_ValueError:
  "(\<not> set ids \<subseteq> set (sample_id_list self) \<longrightarrow>
      set_samples self (Some ids) do_sort = Inl ValueError)
   \<and> (set ids \<subseteq> set (sample_id_list self) \<longrightarrow>
      (\<exists>u. set_samples self (Some ids) False = Inr u
          \<and> sample_idxs u = Some (map (first_match (sample_id_list self)) ids))
      \<and> (\<exists>s. set_samples self (Some ids) True = Inr s
          \<and> sample_idxs s = Some (sort (map (first_match (sample_id_list self)) ids)))
      \<and> (\<forall>i\<in>set ids. first_match (sample_id_list self) i < length (sample_id_list self)
          \<and> sample_id_list self ! first_match (sample_id_list self) i = i
          \<and> (\<forall>j<first_match (sample_id_list self) i. sample_id_list self ! j \<noteq> i)))"
proof (intro conjI impI ballI allI)
  assume "\<not> set ids \<subseteq> set (sample_id_list self)"
  then show "set_samples self (Some ids) do_sort = Inl ValueError"
    by (rule set_samples_absent)
next
  assume "set ids \<subseteq> set (sample_id_list self)"
  then show "\<exists>u. set_samples self (Some ids) False = Inr u
          \<and> sample_idxs u = Some (map (first_match (sample_id_list self)) ids)"
    by (simp add: set_samples_unsorted)
next
  assume "set ids \<subseteq> set (sample_id_list self)"
  then show "\<exists>s. set_samples self (Some ids) True = Inr s
          \<and> sample_idxs s = Some (sort (map (first_match (sample_id_list self)) ids))"
    by (simp add: set_samples_sorted)
next
  fix i assume "set ids \<subseteq> set (sample_id_list self)" "i \<in> set ids"
  then have "i \<in> set (sample_id_list self)" by blast
  then show "first_match (sample_id_list self) i < length (sample_id_list self)"
    and "sample_id_list self ! first_match (sample_id_list self) i = i"
    by (rule first_match_less, rule first_match_nth)
next
  fix i j assume "j < first_match (sample_id_list self) i"
  then show "sample_id_list self ! j \<noteq> i" by (rule first_match_least)
qed

theorem absent_sample_id_ValueError_witness:
  "\<not> set [''a'', ''no-such-id''] \<subseteq> set (sample_id_list example_session)
   \<and> set_samples example_session (Some [''a'', ''no-such-id'']) True = Inl ValueError
   \<and> set [''c'', ''a''] \<subseteq> set (sample_id_list example_session)
   \<and> (\<exists>u. set_samples example_session (Some [''c'', ''a'']) False = Inr u
        \<and> sample_idxs u = Some [2, 0])"
proof -
  have a: "\<not> set [''a'', ''no-such-id''] \<subseteq> set (sample_id_list example_session)"
    by (simp add: example_session_def example_psam_def)
  have k: "set [''c'', ''a''] \<subseteq> set (sample_id_list example_session)"
    by (simp add: example_session_def example_psam_def)
  have m: "map (first_match (sample_id_list example_session)) [''c'', ''a''] = [2, 0]"
    by (simp add: example_session_def example_first_match)
  from absent_sample_id_ValueError [of "[''a'', ''no-such-id'']" example_session True] a
  have 1: "set_samples example_session (Some [''a'', ''no-such-id'']) True = Inl ValueError"
    by blast
  from absent_sample_id_ValueError [of "[''c'', ''a'']" example_session True] k
  have 2: "\<exists>u. set_samples example_session (Some [''c'', ''a'']) False = Inr u
        \<and> sample_idxs u = Some (map (first_match (sample_id_list example_session)) [''c'', ''a''])"
    by blast
  from a 1 k 2 show ?thesis unfolding m by blast
qed

text \<open>
  The claim as it was stated fails: the absent identifier raises ValueError, not KeyError.
\<close>

theorem absent_sample_id_counterexample:
  "set_samples example_session (Some [''a'', ''no-such-id'']) True = Inl ValueError
   \<and> set_samples example_session (Some [''a'', ''no-such-id'']) True \<noteq> Inl KeyError"
proof -
  have "\<not> set [''a'', ''no-such-id''] \<subseteq> set (sample_id_list example_session)"
    by (simp add: example_session_def example_psam_def)
  then have "set_samples example_session (Some [''a'', ''no-such-id'']) True = Inl ValueError"
    by (rule set_samples_absent)
  then show ?thesis by simp
qed

text \<open>
  Claim C2, as amended. For a request of known sample ids, resolving without sorting stores
  the positions of the requested ids in the caller's order, next to the ids in the caller's
  order; resolving with sorting stores the same positions in ascending order. The two
  position sequences are equal exactly when the request already lists the samples in
  ascending store position, and then the presented ids agree too.
\<close>

theorem set_samples_keeps_request_order:
  assumes "set ids \<subseteq> set (sample_id_list self)"
  shows "\<exists>u s. set_samples self (Some ids) False = Inr u
       \<and> set_samples self (Some ids) True = Inr s
       \<and> sample_ids u = ids
       \<and> sample_idxs u = Some (map (first_match (sample_id_list self)) ids)
       \<and> sample_idxs s = Some (sort (map (first_match (sample_id_list self)) ids))
       \<and> (sample_idxs u = sample_idxs s \<longleftrightarrow> sorted (map (first_match (sample_id_list self)) ids))
       \<and> (sorted (map (first_match (sample_id_list self)) ids) \<longrightarrow> sample_ids s = ids)"
proof -
  let ?xs = "sample_id_list self"
  let ?ks = "map (first_match ?xs) ids"
  have eq: "(?ks = sort ?ks) = sorted ?ks"
    by (metis sorted_sort sorted_sort_id)
  have relabel: "map ((!) ?xs) ?ks = ids"
    using assms by (induction ids) (simp_all add: first_match_nth)
  have "sorted ?ks \<longrightarrow> map ((!) ?xs) (sort ?ks) = ids"
    using relabel by (simp add: sorted_sort_id)
  then show ?thesis
    using eq by (simp add: set_samples_unsorted [OF assms] set_samples_sorted [OF assms])
qed

theorem set_samples_keeps_request_order_witness:
  "set [''c'', ''a''] \<subseteq> set (sample_id_list example_session)
   \<and> (\<exists>u s. set_samples example_session (Some [''c'', ''a'']) False = Inr u
       \<and> set_samples example_session (Some [''c'', ''a'']) True = Inr s
       \<and> sample_ids u = [''c'', ''a'']
       \<and> sample_idxs u = Some [2, 0] \<and> sample_idxs s = Some [0, 2])"
proof -
  have k: "set [''c'', ''a''] \<subseteq> set (sample_id_list example_session)"
    by (simp add: example_session_def example_psam_def)
  have m: "map (first_match (sample_id_list example_session)) [''c'', ''a''] = [2, 0]"
    by (simp add: example_session_def example_first_match)
  have s: "sort [2, 0 :: nat] = [0, 2]" by simp
  from set_samples_keeps_request_order [OF k] k show ?thesis
    unfolding m s by blast
qed

text \<open>
  The claim as it was stated fails: without sorting, the request \<open>c, a\<close> stores the positions
  \<open>2, 0\<close>, which are not ascending and are not the positions \<open>0, 2\<close> stored with sorting.
\<close>

theorem unsorted_positions_counterexample:
  "map_sum id sample_idxs (set_samples example_session (Some [''c'', ''a'']) False) = Inr (Some [2, 0])
   \<and> map_sum id sample_idxs (set_samples example_session (Some [''c'', ''a'']) True) = Inr (Some [0, 2])
   \<and> \<not> sorted [2, 0 :: nat]"
  by (simp add: set_samples_known_False set_samples_known_True selected_session_def)

section \<open>The selection made by the constructor\<close>

text \<open>
  Claim C10. The constructor resolves its selection with sorting. Without a selection the
  stored positions are \<open>None\<close> and the presented ids are the sample table's; with a selection
  the stored positions are the requested samples' positions in ascending order and the
  presented ids are the sample table's ids at these positions, that is, in store order. Two
  requests that list the same samples in different orders construct the same session, so the
  caller's order cannot be kept at construction.
\<close>

theorem init_selection_sorted:
  "(Pgen_init pvar psam file None = Inr self \<longrightarrow>
      sample_idxs self = None \<and> sample_ids self = psam)
   \<and> (Pgen_init pvar psam file (Some ids) = Inr self \<longrightarrow>
      (\<exists>ks. sample_idxs self = Some ks \<and> sorted ks \<and> ks = sort (map (first_match psam) ids)
          \<and> sample_ids self = map ((!) psam) ks))
   \<and> (mset ids' = mset ids \<longrightarrow>
      Pgen_init pvar psam file (Some ids') = Pgen_init pvar psam file (Some ids))"
proof (intro conjI impI)
  assume "Pgen_init pvar psam file None = Inr self"
  then show "sample_idxs self = None" and "sample_ids self = psam"
    by (auto simp: Pgen_init_def set_samples_None)
next
  assume init: "Pgen_init pvar psam file (Some ids) = Inr self"
  let ?p = "\<lparr>pvar_df_id = pvar, pgen_file = file, num_variants = length pvar,
       variant_ids = pvar, variant_idx_dict = build_idx_dict pvar,
       sample_id_list = psam, sample_ids = [], sample_idxs = (None :: nat list option)\<rparr>"
  have known: "set ids \<subseteq> set (sample_id_list ?p)"
  proof (rule ccontr)
    assume "\<not> set ids \<subseteq> set (sample_id_list ?p)"
    then have "set_samples ?p (Some ids) True = Inl ValueError" by (rule set_samples_absent)
    with init show False by (simp add: Pgen_init_def)
  qed
  from set_samples_sorted [OF known] init
  show "\<exists>ks. sample_idxs self = Some ks \<and> sorted ks \<and> ks = sort (map (first_match psam) ids)
          \<and> sample_ids self = map ((!) psam) ks"
    by (auto simp: Pgen_init_def)
next
  assume perm: "mset ids' = mset ids"
  let ?p = "\<lparr>pvar_df_id = pvar, pgen_file = file, num_variants = length pvar,
       variant_ids = pvar, variant_idx_dict = build_idx_dict pvar,
       sample_id_list = psam, sample_ids = [], sample_idxs = (None :: nat list option)\<rparr>"
  have sets: "set ids' = set ids" using perm by (rule mset_eq_setD)
  have sorts: "sort (map (first_match psam) ids') = sort (map (first_match psam) ids)"
    using perm by (rule sort_map_perm)
  show "Pgen_init pvar psam file (Some ids') = Pgen_init pvar psam file (Some ids)"
  proof (cases "set ids \<subseteq> set (sample_id_list ?p)")
    case True
    then have "set ids' \<subseteq> set (sample_id_list ?p)" using sets by simp
    from set_samples_sorted [OF this] set_samples_sorted [OF True] sorts
    show ?thesis by (simp add: Pgen_init_def)
  next
    case False
    then have "\<not> set ids' \<subseteq> set (sample_id_list ?p)" using sets by simp
    from set_samples_absent [OF this] set_samples_absent [OF False]
    show ?thesis by (simp add: Pgen_init_def)
  qed
qed

theorem init_selection_sorted_witness:
  "Pgen_init example_pvar example_psam example_pgen None = Inr example_session
   \<and> sample_idxs example_session = None
   \<and> Pgen_init example_pvar example_psam example_pgen (Some [''c'', ''a'']) = Inr selected_session
   \<and> sample_idxs selected_session = Some [0, 2] \<and> sample_ids selected_session = [''a'', ''c'']
   \<and> mset [''a'', ''c''] = mset [''c'', ''a'']
   \<and> Pgen_init example_pvar example_psam example_pgen (Some [''a'', ''c'']) = Inr selected_session"
proof -
  note inst = init_selection_sorted [of example_pvar example_psam example_pgen _ "[''c'', ''a'']" "[''a'', ''c'']"]
  have n: "Pgen_init example_pvar example_psam example_pgen None = Inr example_session"
    by (rule example_init)
  with inst [of example_session] have 1: "sample_idxs example_session = None" by blast
  have s: "Pgen_init example_pvar example_psam example_pgen (Some [''c'', ''a'']) = Inr selected_session"
    by (rule selected_init)
  with inst [of selected_session]
  have "\<exists>ks. sample_idxs selected_session = Some ks \<and> sorted ks
      \<and> ks = sort (map (first_match example_psam) [''c'', ''a''])
      \<and> sample_ids selected_session = map ((!) example_psam) ks"
    by blast
  then have "sample_idxs selected_session = Some [0, 2]
      \<and> sample_ids selected_session = map ((!) example_psam) [0, 2]"
    by (simp add: example_first_match)
  then have 2: "sample_idxs selected_session = Some [0, 2]"
    and 3: "sample_ids selected_session = [''a'', ''c'']"
    by (simp_all add: example_psam_def)
  have p: "mset [''a'', ''c''] = mset [''c'', ''a'']" by (simp add: add_mset_commute)
  with inst [of selected_session] s
  have 4: "Pgen_init example_pvar example_psam example_pgen (Some [''a'', ''c'']) = Inr selected_session"
    by simp
  from n 1 s 2 3 p 4 show ?thesis by blast
qed

section \<open>Sample subsets that are not strictly increasing\<close>

text \<open>
  Claim C5, as amended. No reader checks the order of its \<open>sample_subset\<close> argument. Every
  reader first converts the subset to a \<open>uint32\<close> array, which fails, with OverflowError and
  before any decoder call, only when a position lies outside the range of \<open>uint32\<close>;
  otherwise it hands the array, as it is, to the decoder's constructor, which is its first
  decoder call. A subset of positions in the range of \<open>uint32\<close> that is unsorted or holds a
  position twice is refused there, by the decoder: the call fails with the decoder's error
  after exactly that one decoder call, without a read and without a buffer.
\<close>

theorem unsorted_subset_reaches_decoder:
  fixes f :: "('d::zero) pgen"
  assumes "\<not> sorted_wrt (<) xs"
  shows "(list_all (\<lambda>i. 0 \<le> i \<and> i < 2 ^ 32) xs \<longrightarrow>
        read_dosages f variant_idx (Some xs) = ([Open (Some (map nat xs))], Inl DecoderError)
      \<and> read_alleles f variant_idx (Some xs) = ([Open (Some (map nat xs))], Inl DecoderError)
      \<and> read_dosages_list f variant_idxs (Some xs) = ([Open (Some (map nat xs))], Inl DecoderError)
      \<and> read_alleles_list f variant_idxs (Some xs) = ([Open (Some (map nat xs))], Inl DecoderError)
      \<and> read_dosages_range f start_idx end_idx (Some xs)
          = ([Open (Some (map nat xs))], Inl DecoderError)
      \<and> read_alleles_range f start_idx end_idx (Some xs)
          = ([Open (Some (map nat xs))], Inl DecoderError))
   \<and> (\<not> list_all (\<lambda>i. 0 \<le> i \<and> i < 2 ^ 32) xs \<longrightarrow>
        read_dosages f variant_idx (Some xs) = ([], Inl OverflowError)
      \<and> read_alleles f variant_idx (Some xs) = ([], Inl OverflowError)
      \<and> read_dosages_list f variant_idxs (Some xs) = ([], Inl OverflowError)
      \<and> read_alleles_list f variant_idxs (Some xs) = ([], Inl OverflowError)
      \<and> read_dosages_range f start_idx end_idx (Some xs) = ([], Inl OverflowError)
      \<and> read_alleles_range f start_idx end_idx (Some xs) = ([], Inl OverflowError))"
proof (intro conjI impI)
  assume fits: "list_all (\<lambda>i. 0 \<le> i \<and> i < 2 ^ 32) xs"
  have c: "subset_array (Some xs) = Inr (Some (map nat xs))"
    using fits by (rule subset_array_Some)
  have "list_all (\<lambda>i. 0 \<le> i) xs" using fits by (simp add: list_all_iff)
  then have "sorted_wrt (<) (map nat xs) = sorted_wrt (<) xs" by (rule sorted_wrt_map_nat)
  then have "\<not> sorted_wrt (<) (map nat xs)" using assms by simp
  then have r: "PgenReader_open f (Some (map nat xs)) = Inl DecoderError"
    by (intro open_refused unsorted_refused)
  show "read_dosages f variant_idx (Some xs) = ([Open (Some (map nat xs))], Inl DecoderError)"
    by (simp add: read_dosages_def c r)
  show "read_alleles f variant_idx (Some xs) = ([Open (Some (map nat xs))], Inl DecoderError)"
    by (simp add: read_alleles_def c r)
  show "read_dosages_list f variant_idxs (Some xs) = ([Open (Some (map nat xs))], Inl DecoderError)"
    by (simp add: read_dosages_list_def c r)
  show "read_alleles_list f variant_idxs (Some xs) = ([Open (Some (map nat xs))], Inl DecoderError)"
    by (simp add: read_alleles_list_def c r)
  show "read_dosages_range f start_idx end_idx (Some xs)
      = ([Open (Some (map nat xs))], Inl DecoderError)"
    by (simp add: read_dosages_range_def c r)
  show "read_alleles_range f start_idx end_idx (Some xs)
      = ([Open (Some (map nat xs))], Inl DecoderError)"
    by (simp add: read_alleles_range_def c r)
next
  assume "\<not> list_all (\<lambda>i. 0 \<le> i \<and> i < 2 ^ 32) xs"
  then have c: "subset_array (Some xs) = Inl OverflowError" by (rule subset_array_overflow)
  show "read_dosages f variant_idx (Some xs) = ([], Inl OverflowError)"
    by (simp add: read_dosages_def c)
  show "read_alleles f variant_idx (Some xs) = ([], Inl OverflowError)"
    by (simp add: read_alleles_def c)
  show "read_dosages_list f variant_idxs (Some xs) = ([], Inl OverflowError)"
    by (simp add: read_dosages_list_def c)
  show "read_alleles_list f variant_idxs (Some xs) = ([], Inl OverflowError)"
    by (simp add: read_alleles_list_def c)
  show "read_dosages_range f start_idx end_idx (Some xs) = ([], Inl OverflowError)"
    by (simp add: read_dosages_range_def c)
  show "read_alleles_range f start_idx end_idx (Some xs) = ([], Inl OverflowError)"
    by (simp add: read_alleles_range_def c)
qed

theorem unsorted_subset_reaches_decoder_witness:
  "\<not> sorted_wrt (<) [1, 1 :: int]
   \<and> read_dosages example_pgen 0 (Some [1, 1]) = ([Open (Some [1, 1])], Inl DecoderError)
   \<and> read_alleles_range example_pgen 0 3 (Some [1, 1]) = ([Open (Some [1, 1])], Inl DecoderError)
   \<and> \<not> sorted_wrt (<) [4294967296, 0 :: int]
   \<and> read_dosages example_pgen 0 (Some [4294967296, 0]) = ([], Inl OverflowError)
   \<and> \<not> sorted_wrt (<) [2, - 1 :: int]
   \<and> read_alleles_list example_pgen [0] (Some [2, - 1]) = ([], Inl OverflowError)"
proof -
  have h: "\<not> sorted_wrt (<) [1, 1 :: int]" by simp
  have fits: "list_all (\<lambda>i. 0 \<le> i \<and> i < 2 ^ 32) [1, 1 :: int]" by simp
  have m: "map nat [1, 1] = [1, 1]" by simp
  from unsorted_subset_reaches_decoder [OF h, of example_pgen 0 "[]" 0 3] fits
  have 1: "read_dosages example_pgen 0 (Some [1, 1]) = ([Open (Some [1, 1])], Inl DecoderError)"
    and 2: "read_alleles_range example_pgen 0 3 (Some [1, 1]) = ([Open (Some [1, 1])], Inl DecoderError)"
    unfolding m by blast+
  have g: "\<not> sorted_wrt (<) [4294967296, 0 :: int]" by simp
  have big: "\<not> list_all (\<lambda>i. 0 \<le> i \<and> i < 2 ^ 32) [4294967296, 0 :: int]" by simp
  from unsorted_subset_reaches_decoder [OF g, of example_pgen 0 "[]" 0 3] big
  have 3: "read_dosages example_pgen 0 (Some [4294967296, 0]) = ([], Inl OverflowError)"
    by blast
  have k: "\<not> sorted_wrt (<) [2, - 1 :: int]" by simp
  have neg: "\<not> list_all (\<lambda>i. 0 \<le> i \<and> i < 2 ^ 32) [2, - 1 :: int]" by simp
  from unsorted_subset_reaches_decoder [OF k, of example_pgen 0 "[0]" 0 3] neg
  have 4: "read_alleles_list example_pgen [0] (Some [2, - 1]) = ([], Inl OverflowError)"
    by blast
  from h 1 2 g 3 k 4 show ?thesis by blast
qed

text \<open>
  The claim as it was stated fails: the unsorted subset \<open>2, 0\<close> is not rejected before the
  decoder is reached, the decoder's constructor is called with it.
\<close>

theorem unsorted_subset_counterexample:
  "fst (read_dosages example_pgen 0 (Some [2, 0])) = [Open (Some [2, 0])]
   \<and> fst (read_dosages_range example_pgen 0 1 (Some [2, 0])) = [Open (Some [2, 0])]"
proof -
  have "PgenReader_open example_pgen (Some [2, 0]) = Inl DecoderError"
    by (simp add: PgenReader_open_def subset_ok_def)
  then show ?thesis
    by (simp add: read_dosages_def read_dosages_range_def example_subset_array)
qed

section \<open>Ranges\<close>




text \<open>
  Claim C3. For \<open>0 \<le> start_idx \<le> end_idx\<close> within the file, and a sample subset that
  converts to an array the decoder accepts, the range reader calls the decoder's range read
  with the exclusive end \<open>end_idx + 1\<close> and returns a matrix of exactly
  \<open>end_idx - start_idx + 1\<close> rows; row \<open>k\<close> is what the single-variant reader returns for the
  variant at index \<open>start_idx + k\<close>. So the range from 2 to 2 is one row, the dosages of the
  variant at index 2.
\<close>

theorem range_end_inclusive:
  fixes f :: "('d::zero) pgen"
  assumes "0 \<le> start_idx" and "start_idx \<le> end_idx" and "end_idx < int (raw_variant_ct f)"
    and "subset_array sample_subset = Inr ss" and "subset_ok f ss"
  shows "\<exists>m. read_dosages_range f start_idx end_idx sample_subset =
           (Open ss # (case ss of None \<Rightarrow> [GetRawSampleCt] | Some xs \<Rightarrow> [])
              @ [ReadDosagesRange start_idx (end_idx + 1), Close], Inr m)
       \<and> shape0 m = nat (end_idx - start_idx + 1)
       \<and> length (cells m) = nat (end_idx - start_idx + 1)
       \<and> (\<forall>k<nat (end_idx - start_idx + 1).
             snd (read_dosages f (nat start_idx + k) sample_subset) = Inr (cells m ! k))"
proof -
  let ?r = "\<lparr>reader_file = f, reader_subset = ss\<rparr>"
  let ?n = "nat (end_idx - start_idx + 1)"
  let ?m = "\<lparr>shape0 = ?n, shape1 = length (selected ?r),
            cells = map (dosage_row ?r) [nat start_idx..<nat (end_idx + 1)]\<rparr>"
  have le: "start_idx \<le> end_idx + 1" using assms(2) by simp
  have run: "read_dosages_range f start_idx end_idx sample_subset =
           (Open ss # (case ss of None \<Rightarrow> [GetRawSampleCt] | Some xs \<Rightarrow> [])
              @ [ReadDosagesRange start_idx (end_idx + 1), Close], Inr ?m)"
    using assms(4) assms(5) assms(1) le assms(3) by (rule read_dosages_range_ok)
  have len: "nat (end_idx + 1) - nat start_idx = ?n"
    using assms(1) assms(2) by simp
  have rows: "snd (read_dosages f (nat start_idx + k) sample_subset) = Inr (cells ?m ! k)"
    if "k < ?n" for k
  proof -
    have v: "nat start_idx + k < raw_variant_ct f"
      using that assms(1) assms(2) assms(3) by linarith
    have "nat start_idx + k < nat (end_idx + 1)" using that len by simp
    then have "cells ?m ! k = dosage_row ?r (nat start_idx + k)" using that len by simp
    then show ?thesis by (simp only: read_dosages_ok [OF assms(4) assms(5) v] snd_conv)
  qed
  have "shape0 ?m = ?n" and "length (cells ?m) = ?n" using len by simp_all
  with run rows show ?thesis by blast
qed

theorem range_end_inclusive_witness:
  "(0::int) \<le> 2 \<and> (2::int) \<le> 2 \<and> 2 < int (raw_variant_ct example_pgen)
   \<and> subset_array (Some [0, 2]) = Inr (Some [0, 2])
   \<and> subset_ok example_pgen (Some [0, 2])
   \<and> read_dosages_range example_pgen 2 2 (Some [0, 2]) =
        ([Open (Some [0, 2]), ReadDosagesRange 2 3, Close],
         Inr \<lparr>shape0 = 1, shape1 = 2, cells = [[20, 22]]\<rparr>)
   \<and> snd (read_dosages example_pgen 2 (Some [0, 2])) = Inr [20, 22]"
proof -
  have h: "(0::int) \<le> 2" "(2::int) \<le> 2" "2 < int (raw_variant_ct example_pgen)"
    by (simp_all add: example_pgen_def)
  have cv: "subset_array (Some [0, 2]) = Inr (Some [0, 2])" by (rule example_subset_array)
  have ok: "subset_ok example_pgen (Some [0, 2])" by (rule example_subset_ok)
  from range_end_inclusive [OF h cv ok] obtain m where
    run: "read_dosages_range example_pgen 2 2 (Some [0, 2]) =
           ([Open (Some [0, 2]), ReadDosagesRange 2 3, Close], Inr m)"
    and s0: "shape0 m = 1" and len: "length (cells m) = 1"
    and row: "snd (read_dosages example_pgen 2 (Some [0, 2])) = Inr (cells m ! 0)"
    by auto
  have v: "2 < raw_variant_ct example_pgen" by (simp add: example_pgen_def)
  have "snd (read_dosages example_pgen 2 (Some [0, 2])) =
      Inr (dosage_row \<lparr>reader_file = example_pgen, reader_subset = Some [0, 2]\<rparr> 2)"
    by (simp only: read_dosages_ok [OF cv ok v] snd_conv)
  then have single: "snd (read_dosages example_pgen 2 (Some [0, 2])) = Inr [20, 22]"
    by (simp add: dosage_row_def selected_def example_pgen_def)
  from row single have "cells m ! 0 = [20, 22]" by simp
  with len have c: "cells m = [[20, 22]]" by (cases "cells m") simp_all
  have le: "(2::int) \<le> 2 + 1" by simp
  have "shape1 m = 2"
    using run read_dosages_range_ok [OF cv ok h(1) le h(3)] by (auto simp: selected_def)
  with s0 c have "m = \<lparr>shape0 = 1, shape1 = 2, cells = [[20, 22]]\<rparr>" by simp
  with run h cv ok single show ?thesis by simp
qed

section \<open>Alleles of a list of variants\<close>

text \<open>
  Claim C8. For a session whose selection the decoder accepts and whose sample labels fit
  it, and a list of known variant ids (whose positions lie in the file),
  \<open>Pgen.read_alleles_list\<close> opens the decoder with the session's selection and makes one
  list read, of the requested variants' positions in the requested order. The buffer it
  reads has one row per requested variant, of width twice the number of selected samples,
  holding for every selected sample, in order, the two raw allele codes of that sample. The
  two frames returned are labelled by the requested ids and the selected sample ids: entry
  \<open>j\<close> of a row of the first frame is entry \<open>2j\<close> of the buffer's row, the first code of the
  \<open>j\<close>-th selected sample, and entry \<open>j\<close> of the second frame is entry \<open>2j + 1\<close>, its second
  code.
\<close>

theorem alleles_deinterleaved:
  assumes "set ids \<subseteq> dom (variant_idx_dict self)"
    and "list_all (\<lambda>i. the (variant_idx_dict self i) < raw_variant_ct (pgen_file self)) ids"
    and "subset_array (map_option (map int) (sample_idxs self)) = Inr (sample_idxs self)"
    and "subset_ok (pgen_file self) (sample_idxs self)"
    and "length (sample_ids self) =
          length (selected \<lparr>reader_file = pgen_file self, reader_subset = sample_idxs self\<rparr>)"
  shows "\<exists>a df1 df2.
      read_alleles_list (pgen_file self) (map (\<lambda>i. the (variant_idx_dict self i)) ids)
          (map_option (map int) (sample_idxs self)) =
        (Open (sample_idxs self)
           # (case sample_idxs self of None \<Rightarrow> [GetRawSampleCt] | Some xs \<Rightarrow> [])
           @ [ReadAllelesList (map (\<lambda>i. the (variant_idx_dict self i)) ids), Close],
         Inr a)
      \<and> snd (read_alleles_list (pgen_file self) (map (\<lambda>i. the (variant_idx_dict self i)) ids)
             (map_option (map int) (sample_idxs self))) = Inr a
      \<and> shape0 a = length ids \<and> shape1 a = 2 * length (sample_ids self)
      \<and> length (cells a) = length ids
      \<and> cells a =
          map (\<lambda>v. concat (map (\<lambda>s. [allele_of (pgen_file self) v (2 * s),
                                       allele_of (pgen_file self) v (2 * s + 1)])
                 (case sample_idxs self of
                    None \<Rightarrow> [0..<raw_sample_ct (pgen_file self)] | Some xs \<Rightarrow> xs)))
            (map (\<lambda>i. the (variant_idx_dict self i)) ids)
      \<and> Pgen_read_alleles_list self ids =
          (fst (read_alleles_list (pgen_file self) (map (\<lambda>i. the (variant_idx_dict self i)) ids)
             (map_option (map int) (sample_idxs self))), Inr (df1, df2))
      \<and> df_index df1 = ids \<and> df_columns df1 = sample_ids self
      \<and> df_index df2 = ids \<and> df_columns df2 = sample_ids self
      \<and> df_values df1 =
          map (\<lambda>v. map (\<lambda>s. allele_of (pgen_file self) v (2 * s))
                 (case sample_idxs self of
                    None \<Rightarrow> [0..<raw_sample_ct (pgen_file self)] | Some xs \<Rightarrow> xs))
            (map (\<lambda>i. the (variant_idx_dict self i)) ids)
      \<and> df_values df2 =
          map (\<lambda>v. map (\<lambda>s. allele_of (pgen_file self) v (2 * s + 1))
                 (case sample_idxs self of
                    None \<Rightarrow> [0..<raw_sample_ct (pgen_file self)] | Some xs \<Rightarrow> xs))
            (map (\<lambda>i. the (variant_idx_dict self i)) ids)
      \<and> length (df_values df1) = length ids \<and> length (df_values df2) = length ids
      \<and> (\<forall>i<length ids.
            length (cells a ! i) = 2 * length (sample_ids self)
            \<and> length (df_values df1 ! i) = length (sample_ids self)
            \<and> length (df_values df2 ! i) = length (sample_ids self)
            \<and> (\<forall>j<length (sample_ids self).
                  df_values df1 ! i ! j = cells a ! i ! (2 * j)
                  \<and> df_values df2 ! i ! j = cells a ! i ! (2 * j + 1)))"
proof -
  let ?f = "pgen_file self"
  let ?ss = "sample_idxs self"
  let ?arg = "map_option (map int) (sample_idxs self)"
  let ?r = "\<lparr>reader_file = ?f, reader_subset = ?ss\<rparr>"
  let ?vs = "map (\<lambda>i. the (variant_idx_dict self i)) ids"
  let ?n = "length (sample_ids self)"
  let ?sel = "case ?ss of None \<Rightarrow> [0..<raw_sample_ct ?f] | Some xs \<Rightarrow> xs"
  let ?a = "\<lparr>shape0 = length ?vs, shape1 = 2 * length (selected ?r),
            cells = map (allele_row ?r) ?vs\<rparr>"
  let ?df1 = "\<lparr>df_values = map step2 (cells ?a), df_index = ids, df_columns = sample_ids self\<rparr>"
  let ?df2 = "\<lparr>df_values = map (\<lambda>r. step2 (drop 1 r)) (cells ?a), df_index = ids,
              df_columns = sample_ids self\<rparr>"
  let ?log = "Open ?ss # (case ?ss of None \<Rightarrow> [GetRawSampleCt] | Some xs \<Rightarrow> [])
      @ [ReadAllelesList ?vs, Close]"
  have vs: "list_all (\<lambda>v. v < raw_variant_ct ?f) ?vs"
    using assms(2) by (simp add: list_all_iff)
  have run: "read_alleles_list ?f ?vs ?arg = (?log, Inr ?a)"
    using assms(3) assms(4) vs by (rule read_alleles_list_ok)
  have look: "lookup_each (variant_idx_dict self) ids = Inr ?vs"
    using assms(1) by (rule lookup_each_known)
  have n: "length (selected ?r) = ?n" using assms(5) by simp
  have f1: "DataFrame_new (cols_even ?a) ids (sample_ids self) = Inr ?df1"
    by (simp add: DataFrame_new_def cols_even_def n)
  have f2: "DataFrame_new (cols_odd ?a) ids (sample_ids self) = Inr ?df2"
    by (simp add: DataFrame_new_def cols_odd_def n)
  have whole: "Pgen_read_alleles_list self ids = (fst (read_alleles_list ?f ?vs ?arg), Inr (?df1, ?df2))"
    by (simp only: Pgen_read_alleles_list_def look run f1 f2 sum.case prod.case fst_conv)
  have row: "allele_row ?r v =
      concat (map (\<lambda>s. [allele_of ?f v (2 * s), allele_of ?f v (2 * s + 1)]) ?sel)" for v
    by (cases "sample_idxs self") (simp_all add: allele_row_def selected_def)
  have content: "cells ?a =
      map (\<lambda>v. concat (map (\<lambda>s. [allele_of ?f v (2 * s), allele_of ?f v (2 * s + 1)]) ?sel)) ?vs"
    using row by simp
  have first: "df_values ?df1 = map (\<lambda>v. map (\<lambda>s. allele_of ?f v (2 * s)) ?sel) ?vs"
    by (simp add: row step2_interleaved comp_def)
  have second: "df_values ?df2 = map (\<lambda>v. map (\<lambda>s. allele_of ?f v (2 * s + 1)) ?sel) ?vs"
    by (simp add: row step2_drop_interleaved [unfolded One_nat_def] comp_def)
  have entries: "length (cells ?a ! i) = 2 * ?n
      \<and> length (df_values ?df1 ! i) = ?n \<and> length (df_values ?df2 ! i) = ?n
      \<and> (\<forall>j<?n. df_values ?df1 ! i ! j = cells ?a ! i ! (2 * j)
              \<and> df_values ?df2 ! i ! j = cells ?a ! i ! (2 * j + 1))"
    if i: "i < length ids" for i
  proof -
    let ?row = "allele_row ?r (?vs ! i)"
    have len: "length ?row = 2 * ?n" by (simp add: length_allele_row n)
    have "step2 ?row ! j = ?row ! (2 * j)" and "step2 (drop 1 ?row) ! j = ?row ! (2 * j + 1)"
      if "j < ?n" for j
      using that len by (simp_all add: nth_step2 nth_step2_drop)
    then show ?thesis using i len by (simp add: length_step2)
  qed
  have "snd (read_alleles_list ?f ?vs ?arg) = Inr ?a" by (simp only: run snd_conv)
  moreover have "shape0 ?a = length ids" and "shape1 ?a = 2 * ?n" and "length (cells ?a) = length ids"
    by (simp_all add: n)
  moreover have "df_index ?df1 = ids" "df_columns ?df1 = sample_ids self"
    "df_index ?df2 = ids" "df_columns ?df2 = sample_ids self"
    "length (df_values ?df1) = length ids" "length (df_values ?df2) = length ids"
    by simp_all
  ultimately show ?thesis using run content whole first second entries by blast
qed

theorem alleles_deinterleaved_witness:
  "set [''v3'', ''v1''] \<subseteq> dom (variant_idx_dict selected_session)
   \<and> list_all (\<lambda>i. the (variant_idx_dict selected_session i)
          < raw_variant_ct (pgen_file selected_session)) [''v3'', ''v1'']
   \<and> subset_array (map_option (map int) (sample_idxs selected_session))
        = Inr (sample_idxs selected_session)
   \<and> subset_ok (pgen_file selected_session) (sample_idxs selected_session)
   \<and> length (sample_ids selected_session) =
        length (selected \<lparr>reader_file = pgen_file selected_session,
                          reader_subset = sample_idxs selected_session\<rparr>)
   \<and> read_alleles_list example_pgen [3, 1] (Some [0, 2]) =
        ([Open (Some [0, 2]), ReadAllelesList [3, 1], Close],
         Inr \<lparr>shape0 = 2, shape1 = 4, cells = [[300, 301, 304, 305], [0, 1, 1, 1]]\<rparr>)
   \<and> Pgen_read_alleles_list selected_session [''v3'', ''v1''] =
        ([Open (Some [0, 2]), ReadAllelesList [3, 1], Close],
         Inr (\<lparr>df_values = [[300, 304], [0, 1]], df_index = [''v3'', ''v1''],
                 df_columns = [''a'', ''c'']\<rparr>,
              \<lparr>df_values = [[301, 305], [1, 1]], df_index = [''v3'', ''v1''],
                 df_columns = [''a'', ''c'']\<rparr>))
   \<and> read_alleles_list example_pgen [1] None =
        ([Open None, GetRawSampleCt, ReadAllelesList [1], Close],
         Inr \<lparr>shape0 = 1, shape1 = 6, cells = [[0, 1, - 9, - 9, 1, 1]]\<rparr>)
   \<and> Pgen_read_alleles_list example_session [''v1''] =
        ([Open None, GetRawSampleCt, ReadAllelesList [1], Close],
         Inr (\<lparr>df_values = [[0, - 9, 1]], df_index = [''v1''], df_columns = [''a'', ''b'', ''c'']\<rparr>,
              \<lparr>df_values = [[1, - 9, 1]], df_index = [''v1''], df_columns = [''a'', ''b'', ''c'']\<rparr>))"
proof -
  have codes: "allele_of example_pgen 3 k = 300 + int k"
    "allele_of example_pgen 1 k = [0, 1, - 9, - 9, 1, 1] ! k"
    "allele_of example_pgen (Suc 0) k = [0, 1, - 9, - 9, 1, 1] ! k" for k
    by (simp_all add: example_pgen_def)
  have counts: "raw_variant_ct example_pgen = 4" "raw_sample_ct example_pgen = 3"
    by (simp_all add: example_pgen_def)
  txt \<open>The session with the selection, asked for \<open>v3\<close> and \<open>v1\<close>.\<close>
  have f: "pgen_file selected_session = example_pgen" "sample_idxs selected_session = Some [0, 2]"
    "sample_ids selected_session = [''a'', ''c'']"
    "variant_idx_dict selected_session = build_idx_dict example_pvar"
    by (simp_all add: selected_session_def example_session_def)
  have vs: "map (\<lambda>i. the (build_idx_dict example_pvar i)) [''v3'', ''v1''] = [3, 1]"
    by (simp add: example_dict)
  have h1: "set [''v3'', ''v1''] \<subseteq> dom (variant_idx_dict selected_session)"
    unfolding f using example_dict by auto
  have h2: "list_all (\<lambda>i. the (variant_idx_dict selected_session i)
          < raw_variant_ct (pgen_file selected_session)) [''v3'', ''v1'']"
    unfolding f by (simp add: example_dict counts)
  have h3: "subset_array (map_option (map int) (sample_idxs selected_session))
        = Inr (sample_idxs selected_session)"
    unfolding f using example_subset_array(1) by simp
  have h4: "subset_ok (pgen_file selected_session) (sample_idxs selected_session)"
    unfolding f by (rule example_subset_ok)
  have h5: "length (sample_ids selected_session) =
        length (selected \<lparr>reader_file = pgen_file selected_session,
                          reader_subset = sample_idxs selected_session\<rparr>)"
    unfolding f by (simp add: selected_def)
  from alleles_deinterleaved [OF h1 h2 h3 h4 h5, unfolded f vs] obtain a df1 df2 where
    run: "read_alleles_list example_pgen [3, 1] (map_option (map int) (Some [0, 2])) =
        (Open (Some [0, 2]) # (case Some [0, 2 :: nat] of None \<Rightarrow> [GetRawSampleCt] | Some xs \<Rightarrow> [])
           @ [ReadAllelesList [3, 1], Close], Inr a)"
    and shape: "shape0 a = length [''v3'', ''v1'']" "shape1 a = 2 * length [''a'', ''c'']"
    and content: "cells a =
          map (\<lambda>v. concat (map (\<lambda>s. [allele_of example_pgen v (2 * s),
                                       allele_of example_pgen v (2 * s + 1)])
                 (case Some [0, 2] of None \<Rightarrow> [0..<raw_sample_ct example_pgen] | Some xs \<Rightarrow> xs)))
            [3, 1]"
    and whole: "Pgen_read_alleles_list selected_session [''v3'', ''v1''] =
          (fst (read_alleles_list example_pgen [3, 1] (map_option (map int) (Some [0, 2]))),
           Inr (df1, df2))"
    and lab: "df_index df1 = [''v3'', ''v1'']" "df_columns df1 = [''a'', ''c'']"
      "df_index df2 = [''v3'', ''v1'']" "df_columns df2 = [''a'', ''c'']"
    and first: "df_values df1 =
          map (\<lambda>v. map (\<lambda>s. allele_of example_pgen v (2 * s))
                 (case Some [0, 2] of None \<Rightarrow> [0..<raw_sample_ct example_pgen] | Some xs \<Rightarrow> xs))
            [3, 1]"
    and second: "df_values df2 =
          map (\<lambda>v. map (\<lambda>s. allele_of example_pgen v (2 * s + 1))
                 (case Some [0, 2] of None \<Rightarrow> [0..<raw_sample_ct example_pgen] | Some xs \<Rightarrow> xs))
            [3, 1]"
    by blast
  have "cells a = [[300, 301, 304, 305], [0, 1, 1, 1]]"
    using content by (simp add: codes)
  with shape have a: "a = \<lparr>shape0 = 2, shape1 = 4, cells = [[300, 301, 304, 305], [0, 1, 1, 1]]\<rparr>"
    by simp
  have r1: "read_alleles_list example_pgen [3, 1] (Some [0, 2]) =
        ([Open (Some [0, 2]), ReadAllelesList [3, 1], Close],
         Inr \<lparr>shape0 = 2, shape1 = 4, cells = [[300, 301, 304, 305], [0, 1, 1, 1]]\<rparr>)"
    using run a by simp
  have "df_values df1 = [[300, 304], [0, 1]]" using first by (simp add: codes)
  with lab have d1: "df1 = \<lparr>df_values = [[300, 304], [0, 1]], df_index = [''v3'', ''v1''],
                 df_columns = [''a'', ''c'']\<rparr>"
    by simp
  have "df_values df2 = [[301, 305], [1, 1]]" using second by (simp add: codes)
  with lab have d2: "df2 = \<lparr>df_values = [[301, 305], [1, 1]], df_index = [''v3'', ''v1''],
                 df_columns = [''a'', ''c'']\<rparr>"
    by simp
  have r2: "Pgen_read_alleles_list selected_session [''v3'', ''v1''] =
        ([Open (Some [0, 2]), ReadAllelesList [3, 1], Close],
         Inr (\<lparr>df_values = [[300, 304], [0, 1]], df_index = [''v3'', ''v1''],
                 df_columns = [''a'', ''c'']\<rparr>,
              \<lparr>df_values = [[301, 305], [1, 1]], df_index = [''v3'', ''v1''],
                 df_columns = [''a'', ''c'']\<rparr>))"
    using whole run d1 d2 by simp
  txt \<open>The session without a selection, asked for \<open>v1\<close>: the example of the specification.\<close>
  have g: "pgen_file example_session = example_pgen" "sample_idxs example_session = None"
    "sample_ids example_session = [''a'', ''b'', ''c'']"
    "variant_idx_dict example_session = build_idx_dict example_pvar"
    by (simp_all add: example_session_def example_psam_def)
  have ws: "map (\<lambda>i. the (build_idx_dict example_pvar i)) [''v1''] = [1]"
    by (simp add: example_dict)
  have k1: "set [''v1''] \<subseteq> dom (variant_idx_dict example_session)"
    unfolding g using example_dict by auto
  have k2: "list_all (\<lambda>i. the (variant_idx_dict example_session i)
          < raw_variant_ct (pgen_file example_session)) [''v1'']"
    unfolding g by (simp add: example_dict counts)
  have k3: "subset_array (map_option (map int) (sample_idxs example_session))
        = Inr (sample_idxs example_session)"
    unfolding g by (simp add: subset_array_None)
  have k4: "subset_ok (pgen_file example_session) (sample_idxs example_session)"
    unfolding g by (rule example_subset_ok)
  have k5: "length (sample_ids example_session) =
        length (selected \<lparr>reader_file = pgen_file example_session,
                          reader_subset = sample_idxs example_session\<rparr>)"
    unfolding g by (simp add: selected_def counts)
  from alleles_deinterleaved [OF k1 k2 k3 k4 k5, unfolded g ws] obtain b ef1 ef2 where
    run': "read_alleles_list example_pgen [1] (map_option (map int) None) =
        (Open None # (case (None :: nat list option) of None \<Rightarrow> [GetRawSampleCt] | Some xs \<Rightarrow> [])
           @ [ReadAllelesList [1], Close], Inr b)"
    and shape': "shape0 b = length [''v1'']" "shape1 b = 2 * length [''a'', ''b'', ''c'']"
    and content': "cells b =
          map (\<lambda>v. concat (map (\<lambda>s. [allele_of example_pgen v (2 * s),
                                       allele_of example_pgen v (2 * s + 1)])
                 (case None of None \<Rightarrow> [0..<raw_sample_ct example_pgen] | Some xs \<Rightarrow> xs)))
            [1]"
    and whole': "Pgen_read_alleles_list example_session [''v1''] =
          (fst (read_alleles_list example_pgen [1] (map_option (map int) None)), Inr (ef1, ef2))"
    and lab': "df_index ef1 = [''v1'']" "df_columns ef1 = [''a'', ''b'', ''c'']"
      "df_index ef2 = [''v1'']" "df_columns ef2 = [''a'', ''b'', ''c'']"
    and first': "df_values ef1 =
          map (\<lambda>v. map (\<lambda>s. allele_of example_pgen v (2 * s))
                 (case None of None \<Rightarrow> [0..<raw_sample_ct example_pgen] | Some xs \<Rightarrow> xs))
            [1]"
    and second': "df_values ef2 =
          map (\<lambda>v. map (\<lambda>s. allele_of example_pgen v (2 * s + 1))
                 (case None of None \<Rightarrow> [0..<raw_sample_ct example_pgen] | Some xs \<Rightarrow> xs))
            [1]"
    by blast
  have u: "[0..<3] = [0, 1, 2 :: nat]" by (simp add: upt_rec)
  have "cells b = [[0, 1, - 9, - 9, 1, 1]]"
    using content' by (simp add: codes counts u)
  with shape' have b: "b = \<lparr>shape0 = 1, shape1 = 6, cells = [[0, 1, - 9, - 9, 1, 1]]\<rparr>"
    by simp
  have r3: "read_alleles_list example_pgen [1] None =
        ([Open None, GetRawSampleCt, ReadAllelesList [1], Close],
         Inr \<lparr>shape0 = 1, shape1 = 6, cells = [[0, 1, - 9, - 9, 1, 1]]\<rparr>)"
    using run' b by simp
  have "df_values ef1 = [[0, - 9, 1]]" using first' by (simp add: codes counts u)
  with lab' have e1: "ef1 = \<lparr>df_values = [[0, - 9, 1]], df_index = [''v1''],
      df_columns = [''a'', ''b'', ''c'']\<rparr>"
    by simp
  have "df_values ef2 = [[1, - 9, 1]]" using second' by (simp add: codes counts u)
  with lab' have e2: "ef2 = \<lparr>df_values = [[1, - 9, 1]], df_index = [''v1''],
      df_columns = [''a'', ''b'', ''c'']\<rparr>"
    by simp
  have r4: "Pgen_read_alleles_list example_session [''v1''] =
        ([Open None, GetRawSampleCt, ReadAllelesList [1], Close],
         Inr (\<lparr>df_values = [[0, - 9, 1]], df_index = [''v1''], df_columns = [''a'', ''b'', ''c'']\<rparr>,
              \<lparr>df_values = [[1, - 9, 1]], df_index = [''v1''], df_columns = [''a'', ''b'', ''c'']\<rparr>))"
    using whole' run' e1 e2 by simp
  from h1 h2 h3 h4 h5 r1 r2 r3 r4 show ?thesis by blast
qed

section \<open>Dosages of a list of variants\<close>

text \<open>
  Whatever the session's selection, \<open>Pgen.read_dosages_list\<close> opens the decoder without a
  sample subset: for known variant ids its first decoder call is \<open>Open None\<close>.
\<close>

lemma Pgen_read_dosages_list_unrestricted:
  fixes self :: "('d::zero) Pgen"
  assumes "set ids \<subseteq> dom (variant_idx_dict self)"
  shows "hd (fst (Pgen_read_dosages_list self ids)) = Open None"
proof -
  let ?vs = "map (\<lambda>i. the (variant_idx_dict self i)) ids"
  obtain calls res where run: "read_dosages_list (pgen_file self) ?vs None = (calls, res)"
    by (cases "read_dosages_list (pgen_file self) ?vs None")
  have "hd (fst (read_dosages_list (pgen_file self) ?vs None)) = Open None"
    by (simp add: read_dosages_list_def subset_array_None split: sum.splits prod.splits)
  then have "hd calls = Open None" by (simp add: run)
  then show ?thesis
    by (cases res) (simp_all add: Pgen_read_dosages_list_def lookup_each_known [OF assms] run)
qed

text \<open>
  Claim C1 fails on the code. In the session that selects the samples \<open>a\<close> and \<open>c\<close> of three,
  the full table is restricted to the two selected samples, and its row of \<open>v1\<close> is
  \<open>[10, 12]\<close>. The batch reader, asked for \<open>v1\<close>, opens the decoder with no subset, reads the
  row \<open>[10, 11, 12]\<close> over all three samples, and then fails with ValueError, since the two
  selected sample ids do not label three columns.
\<close>

theorem batch_dosages_ignore_selection:
  "Pgen_read_dosages_list selected_session [''v1''] =
     ([Open None, GetRawSampleCt, ReadDosagesList [1], Close], Inl ValueError)
   \<and> read_dosages_list example_pgen [1] None =
     ([Open None, GetRawSampleCt, ReadDosagesList [1], Close],
      Inr \<lparr>shape0 = 1, shape1 = 3, cells = [[10, 11, 12]]\<rparr>)
   \<and> Pgen_load_dosages_df selected_session =
     ([Open (Some [0, 2]), ReadDosagesRange 0 4, Close],
      Inr \<lparr>df_values = [[0, 2], [10, 12], [20, 22], [30, 32]],
           df_index = [''v0'', ''v1'', ''v2'', ''v3''], df_columns = [''a'', ''c'']\<rparr>)"
proof -
  have v: "list_all (\<lambda>v. v < raw_variant_ct example_pgen) [1]" by (simp add: example_pgen_def)
  have "read_dosages_list example_pgen [1] None =
     ([Open None, GetRawSampleCt, ReadDosagesList [1], Close],
      Inr \<lparr>shape0 = length [1::nat],
           shape1 = length (selected \<lparr>reader_file = example_pgen, reader_subset = None\<rparr>),
           cells = map (dosage_row \<lparr>reader_file = example_pgen, reader_subset = None\<rparr>) [1]\<rparr>)"
    using read_dosages_list_ok [OF subset_array_None example_subset_ok(1) v] by simp
  also have "\<dots> = ([Open None, GetRawSampleCt, ReadDosagesList [1], Close],
      Inr \<lparr>shape0 = 1, shape1 = 3, cells = [[10, 11, 12]]\<rparr>)"
    by (simp add: dosage_row_def selected_def example_pgen_def upt_rec)
  finally have batch: "read_dosages_list example_pgen [1] None =
     ([Open None, GetRawSampleCt, ReadDosagesList [1], Close],
      Inr \<lparr>shape0 = 1, shape1 = 3, cells = [[10, 11, 12]]\<rparr>)" .
  have fields: "variant_idx_dict selected_session = build_idx_dict example_pvar"
    "pgen_file selected_session = example_pgen" "sample_ids selected_session = [''a'', ''c'']"
    "sample_idxs selected_session = Some [0, 2]" "num_variants selected_session = 4"
    "pvar_df_id selected_session = example_pvar"
    by (simp_all add: selected_session_def example_session_def)
  have "Pgen_read_dosages_list selected_session [''v1''] =
     ([Open None, GetRawSampleCt, ReadDosagesList [1], Close],
      DataFrame_new \<lparr>shape0 = 1, shape1 = 3, cells = [[10, 11, 12]]\<rparr> [''v1''] [''a'', ''c''])"
    by (simp only: Pgen_read_dosages_list_def fields example_lookup batch sum.case prod.case)
  then have 1: "Pgen_read_dosages_list selected_session [''v1''] =
     ([Open None, GetRawSampleCt, ReadDosagesList [1], Close], Inl ValueError)"
    by (simp add: DataFrame_new_def)
  have le: "(0::int) \<le> 3 + 1" and lt: "(3::int) < int (raw_variant_ct example_pgen)"
    by (simp_all add: example_pgen_def)
  have "read_dosages_range example_pgen 0 3 (Some [0, 2]) =
     ([Open (Some [0, 2]), ReadDosagesRange 0 4, Close],
      Inr \<lparr>shape0 = nat (3 - 0 + 1),
           shape1 = length (selected \<lparr>reader_file = example_pgen, reader_subset = Some [0, 2]\<rparr>),
           cells = map (dosage_row \<lparr>reader_file = example_pgen, reader_subset = Some [0, 2]\<rparr>)
                     [nat 0..<nat (3 + 1)]\<rparr>)"
    using read_dosages_range_ok [OF example_subset_array(1) example_subset_ok(2) order_refl le lt] by simp
  also have "\<dots> = ([Open (Some [0, 2]), ReadDosagesRange 0 4, Close],
      Inr \<lparr>shape0 = 4, shape1 = 2, cells = [[0, 2], [10, 12], [20, 22], [30, 32]]\<rparr>)"
    by (simp add: dosage_row_def selected_def example_pgen_def upt_rec)
  finally have full: "read_dosages_range example_pgen 0 3 (Some [0, 2]) =
     ([Open (Some [0, 2]), ReadDosagesRange 0 4, Close],
      Inr \<lparr>shape0 = 4, shape1 = 2, cells = [[0, 2], [10, 12], [20, 22], [30, 32]]\<rparr>)" .
  have m: "int 4 - 1 = 3" "map_option (map int) (Some [0, 2 :: nat]) = Some [0, 2]" by simp_all
  have "Pgen_load_dosages_df selected_session =
     ([Open (Some [0, 2]), ReadDosagesRange 0 4, Close],
      DataFrame_new \<lparr>shape0 = 4, shape1 = 2, cells = [[0, 2], [10, 12], [20, 22], [30, 32]]\<rparr>
        example_pvar [''a'', ''c''])"
    by (simp only: Pgen_load_dosages_df_def fields m full sum.case prod.case)
  then have 2: "Pgen_load_dosages_df selected_session =
     ([Open (Some [0, 2]), ReadDosagesRange 0 4, Close],
      Inr \<lparr>df_values = [[0, 2], [10, 12], [20, 22], [30, 32]],
           df_index = [''v0'', ''v1'', ''v2'', ''v3''], df_columns = [''a'', ''c'']\<rparr>)"
    by (simp add: DataFrame_new_def example_pvar_def)
  from 1 batch 2 show ?thesis by blast
qed

end
